theory Spec2Isabelle
  imports Main "HOL-Library.Word"
begin

section \<open>Diff engine\<close>

text \<open>
  The tree codec imports \<^verbatim>\<open>simpleDiffArray\<close> from \<^verbatim>\<open>./diff\<close>, a module of the
  repository whose text is not among the sources at hand. The result object has the
  fields \<^verbatim>\<open>index\<close>, \<^verbatim>\<open>remove\<close> and \<^verbatim>\<open>insert\<close>, as \<^verbatim>\<open>updateBlocksDoc\<close> reads them.
\<close>

record 'a array_diff =
  index :: nat
  remove :: nat
  inserted :: "'a list"

text \<open>Number of leading positions at which two sequences agree.\<close>

fun commonPrefix :: "'a list \<Rightarrow> 'a list \<Rightarrow> nat" where
  "commonPrefix (x # xs) (y # ys) = (if x = y then Suc (commonPrefix xs ys) else 0)"
| "commonPrefix _ _ = 0"

text \<open>
  Modelled from the spec: \<^verbatim>\<open>diff.simpleDiffArray\<close> (module \<^verbatim>\<open>./diff\<close>, absent from the
  sources). The spec's contract: the largest common prefix, then the largest common suffix
  that does not overlap the prefix; \<^verbatim>\<open>index\<close> is the prefix length, \<^verbatim>\<open>remove\<close> the number
  of old elements between prefix and suffix, \<^verbatim>\<open>insert\<close> the new elements between prefix
  and suffix. The suffix is searched in what is left of both sequences once the prefix is
  taken away, which is what keeps it from overlapping the prefix.
\<close>

definition simpleDiffArray :: "'a list \<Rightarrow> 'a list \<Rightarrow> 'a array_diff" where
  "simpleDiffArray a b =
     (let left = commonPrefix a b;
          right = commonPrefix (rev (drop left a)) (rev (drop left b))
      in \<lparr> index = left,
           remove = length a - left - right,
           inserted = take (length b - left - right) (drop left b) \<rparr>)"


section \<open>Tree codec: data\<close>

text \<open>
  A block of the editor: its \<^verbatim>\<open>clientId\<close>, its other own properties (name, attributes,
  validity flag, ...; kept as one value of type \<^typ>\<open>'a\<close>, compared by value as lodash
  \<^verbatim>\<open>isEqual\<close> does) and its \<^verbatim>\<open>innerBlocks\<close>.
\<close>

datatype 'a block = Block (clientId: string) (attributes: 'a) (innerBlocks: "'a block list")

text \<open>
  The value of a field of a comment or of a reply is a primitive value: the number
  not-a-number, or any other value. \<^verbatim>\<open>x !== y\<close> holds of two such values when they are
  different, and also when both are not-a-number, which differs from itself. A property
  that is missing reads as \<^verbatim>\<open>undefined\<close>, here \<^const>\<open>None\<close>.
\<close>

datatype 'v js_value = NaN | Value 'v

definition strictNotEqual :: "'v js_value option \<Rightarrow> 'v js_value option \<Rightarrow> bool" where
  "strictNotEqual x y = (x \<noteq> y \<or> x = Some NaN)"

type_synonym 'v fields = "string \<rightharpoonup> 'v js_value"

text \<open>A comment and a reply are objects read by property name (\<^verbatim>\<open>comment[ field ]\<close>).\<close>

record 'v reply =
  reply_id :: string
  reply_fields :: "'v fields"

record 'v comment =
  comment_id :: string
  comment_fields :: "'v fields"
  replies :: "'v reply list"

text \<open>
  The post object handed to \<^verbatim>\<open>updatePostDoc\<close>. A missing \<^verbatim>\<open>title\<close> is \<^const>\<open>None\<close>;
  missing \<^verbatim>\<open>blocks\<close> and \<^verbatim>\<open>comments\<close> are read as the empty list by the code
  (\<^verbatim>\<open>newPost.blocks || []\<close>, the default parameter \<^verbatim>\<open>comments = []\<close>).
\<close>

record ('a, 'v) post =
  post_title :: "string option"
  post_blocks :: "'a block list"
  post_comments :: "'v comment list"

text \<open>
  The replicated store. \<^verbatim>\<open>yDocBlocks\<close> is a map with the keys \<^verbatim>\<open>order\<close> (a map from a
  parent id to the list of its children's ids) and \<^verbatim>\<open>byClientId\<close> (a map from an id to
  the block without its inner blocks); either key may be absent. A stored block keeps its
  own \<^verbatim>\<open>clientId\<close> property next to its other properties.
\<close>

record 'a blocks_doc =
  order :: "(string \<rightharpoonup> string list) option"
  byClientId :: "(string \<rightharpoonup> string \<times> 'a) option"

text \<open>
  A comment's map holds its fields and the map of its replies; \<^verbatim>\<open>updateCommentsDoc\<close>
  creates the two together, so a comment's map always has its \<^verbatim>\<open>replies\<close>. A field set
  to \<^verbatim>\<open>undefined\<close> reads back as \<^verbatim>\<open>undefined\<close>, like a field never set.
\<close>

record 'v comment_doc =
  field_values :: "'v fields"
  replies_doc :: "string \<rightharpoonup> 'v fields"

record ('a, 'v) post_doc =
  title_entry :: "string option"
  blocks_entry :: "'a blocks_doc option"
  comments_entry :: "(string \<rightharpoonup> 'v comment_doc) option"

definition emptyPostDoc :: "('a, 'v) post_doc" where
  "emptyPostDoc = \<lparr> title_entry = None, blocks_entry = None, comments_entry = None \<rparr>"

text \<open>
  Every call that the codec makes on a replicated map or list, in the order it makes them.
  The journal of a transaction is the list of these calls. \<^verbatim>\<open>ContentDelete\<close> records
  whether the key was there; a list \<^verbatim>\<open>delete\<close> of length zero and a list \<^verbatim>\<open>insert\<close>
  of no elements are calls that change nothing.
\<close>

datatype ('a, 'v) mutation =
    TitleSet "string option"
  | BlocksCreate
  | OrderMapCreate
  | OrderListCreate string
  | ContentMapCreate
  | ContentDelete string bool
  | OrderDelete string nat nat
  | OrderInsert string nat "string list"
  | ContentSet string "string \<times> 'a"
  | CommentsCreate
  | CommentCreate string
  | CommentFieldSet string string "'v js_value option"
  | RepliesCreate string
  | ReplyCreate string string
  | ReplyFieldSet string string string "'v js_value option"

fun changes :: "('a, 'v) mutation \<Rightarrow> bool" where
  "changes (ContentDelete i present) = present"
| "changes (OrderDelete p i n) = (n \<noteq> 0)"
| "changes (OrderInsert p i ids) = (ids \<noteq> [])"
| "changes _ = True"

fun zeroLength :: "('a, 'v) mutation \<Rightarrow> bool" where
  "zeroLength (OrderDelete p i n) = (n = 0)"
| "zeroLength (OrderInsert p i ids) = (ids = [])"
| "zeroLength _ = False"

section \<open>Tree codec: encoding blocks\<close>

text \<open>\<^verbatim>\<open>Array.prototype.slice( start, end )\<close> for two non-negative integers.\<close>

definition slice :: "'a list \<Rightarrow> nat \<Rightarrow> nat \<Rightarrow> 'a list" where
  "slice xs start end = take (end - start) (drop start xs)"

text \<open>
  The list operations of the replicated array. The library raises when the range leaves
  the list; \<^verbatim>\<open>updateBlocksDoc\<close> passes the range computed by the diff, which never does
  (lemma \<open>simpleDiffArray_bounds\<close>).
\<close>

definition array_delete :: "'a list \<Rightarrow> nat \<Rightarrow> nat \<Rightarrow> 'a list" where
  "array_delete xs i n = take i xs @ drop (i + n) xs"

definition array_insert :: "'a list \<Rightarrow> nat \<Rightarrow> 'a list \<Rightarrow> 'a list" where
  "array_insert xs i ys = take i xs @ ys @ drop i xs"

type_synonym ('a, 'v) blocks_txn = "'a blocks_doc \<times> ('a, 'v) mutation list"

text \<open>
  \<^verbatim>\<open>currentOrder.slice( index, remove ).forEach( id => ! insert.includes( id ) &&
  byClientId.delete( id ) )\<close>, lines 37 to 39.
\<close>

fun deleteRemoved ::
  "string list \<Rightarrow> string list \<Rightarrow> (string \<rightharpoonup> string \<times> 'a) \<times> ('a, 'v) mutation list
     \<Rightarrow> (string \<rightharpoonup> string \<times> 'a) \<times> ('a, 'v) mutation list" where
  "deleteRemoved [] ins (c, j) = (c, j)"
| "deleteRemoved (i # is) ins (c, j) =
     deleteRemoved is ins
       (if i \<notin> set ins then (c(i := None), j @ [ContentDelete i (c i \<noteq> None)]) else (c, j))"

text \<open>
  Lines 22 to 41 of \<^verbatim>\<open>updateBlocksDoc\<close>: create what is missing, diff the current order
  list of \<^verbatim>\<open>clientId\<close> against the new ids, delete the content of removed ids, and
  rewrite the order list.
\<close>

definition reorder :: "('a, 'v) blocks_txn \<Rightarrow> string list \<Rightarrow> string \<Rightarrow> ('a, 'v) blocks_txn" where
  "reorder t newIds parent =
     (let (d, j) = t;
          (m, j) = (case order d of None \<Rightarrow> (Map.empty, j @ [OrderMapCreate])
                                  | Some m \<Rightarrow> (m, j));
          (currentOrder, j) = (case m parent of None \<Rightarrow> ([], j @ [OrderListCreate parent])
                                              | Some ids \<Rightarrow> (ids, j));
          (c, j) = (case byClientId d of None \<Rightarrow> (Map.empty, j @ [ContentMapCreate])
                                       | Some c \<Rightarrow> (c, j));
          orderDiff = simpleDiffArray currentOrder newIds;
          (c, j) = deleteRemoved (slice currentOrder (index orderDiff) (remove orderDiff))
                     (inserted orderDiff) (c, j);
          deleted = array_delete currentOrder (index orderDiff) (remove orderDiff);
          j = j @ [OrderDelete parent (index orderDiff) (remove orderDiff)];
          newOrder = array_insert deleted (index orderDiff) (inserted orderDiff);
          j = j @ [OrderInsert parent (index orderDiff) (inserted orderDiff)]
      in (\<lparr> order = Some (m(parent \<mapsto> newOrder)), byClientId = Some c \<rparr>, j))"

text \<open>
  Lines 45 to 47: the block without its inner blocks is written unless an equal value is
  stored. (When this runs, \<^verbatim>\<open>byClientId\<close> exists: \<^const>\<open>reorder\<close> has run.)
\<close>

definition writeBlock :: "('a, 'v) blocks_txn \<Rightarrow> string \<times> 'a \<Rightarrow> ('a, 'v) blocks_txn" where
  "writeBlock t b =
     (let (d, j) = t;
          c = (case byClientId d of None \<Rightarrow> Map.empty | Some c \<Rightarrow> c)
      in if c (fst b) = None \<or> c (fst b) \<noteq> Some b
         then (d\<lparr> byClientId := Some (c(fst b \<mapsto> b)) \<rparr>, j @ [ContentSet (fst b) b])
         else (d, j))"

fun updateBlocksDoc :: "('a, 'v) blocks_txn \<Rightarrow> 'a block list \<Rightarrow> string \<Rightarrow> ('a, 'v) blocks_txn"
  and updateEach :: "('a, 'v) blocks_txn \<Rightarrow> 'a block list \<Rightarrow> ('a, 'v) blocks_txn" where
  "updateBlocksDoc t blocks parent = updateEach (reorder t (map clientId blocks) parent) blocks"
| "updateEach t [] = t"
| "updateEach t (Block c a inner # bs) =
     updateEach (updateBlocksDoc (writeBlock t (c, a)) inner c) bs"

section \<open>Tree codec: encoding comments and the post\<close>

definition commentFields :: "string list" where
  "commentFields =
     [''type'', ''content'', ''createdAt'', ''status'', ''start'', ''end'', ''authorId'',
      ''authorName'']"

definition replyFields :: "string list" where
  "replyFields = [''content'', ''createdAt'', ''authorId'', ''authorName'']"

text \<open>
  The loop over the field names: a field is set when the map is new or when the stored
  value \<^verbatim>\<open>!==\<close> the object's. The first argument builds the journal entry.
\<close>

fun updateFields ::
  "(string \<Rightarrow> 'v js_value option \<Rightarrow> ('a, 'v) mutation) \<Rightarrow> bool \<Rightarrow> 'v fields \<Rightarrow> string list
     \<Rightarrow> 'v fields \<times> ('a, 'v) mutation list
     \<Rightarrow> 'v fields \<times> ('a, 'v) mutation list" where
  "updateFields entry isNewDoc obj [] (f, j) = (f, j)"
| "updateFields entry isNewDoc obj (field # rest) (f, j) =
     updateFields entry isNewDoc obj rest
       (if isNewDoc \<or> strictNotEqual (f field) (obj field)
        then (f(field := obj field), j @ [entry field (obj field)]) else (f, j))"

fun updateCommentRepliesDoc ::
  "string \<Rightarrow> (string \<rightharpoonup> 'v fields) \<times> ('a, 'v) mutation list \<Rightarrow> 'v reply list
     \<Rightarrow> (string \<rightharpoonup> 'v fields) \<times> ('a, 'v) mutation list" where
  "updateCommentRepliesDoc cid (repliesDoc, j) [] = (repliesDoc, j)"
| "updateCommentRepliesDoc cid (repliesDoc, j) (r # rs) =
     (let isNewDoc = (repliesDoc (reply_id r) = None);
          (currentReplyDoc, j) =
             (case repliesDoc (reply_id r) of
                None \<Rightarrow> (Map.empty, j @ [ReplyCreate cid (reply_id r)])
              | Some cur \<Rightarrow> (cur, j));
          (currentReplyDoc, j) =
             updateFields (ReplyFieldSet cid (reply_id r)) isNewDoc (reply_fields r) replyFields
               (currentReplyDoc, j)
      in updateCommentRepliesDoc cid (repliesDoc(reply_id r \<mapsto> currentReplyDoc), j) rs)"

fun updateCommentsDoc ::
  "(string \<rightharpoonup> 'v comment_doc) \<times> ('a, 'v) mutation list \<Rightarrow> 'v comment list
     \<Rightarrow> (string \<rightharpoonup> 'v comment_doc) \<times> ('a, 'v) mutation list" where
  "updateCommentsDoc (commentsDoc, j) [] = (commentsDoc, j)"
| "updateCommentsDoc (commentsDoc, j) (c # cs) =
     (let isNewDoc = (commentsDoc (comment_id c) = None);
          (currentDoc, j) =
             (case commentsDoc (comment_id c) of
                None \<Rightarrow> (\<lparr> field_values = Map.empty, replies_doc = Map.empty \<rparr>,
                          j @ [CommentCreate (comment_id c)])
              | Some cur \<Rightarrow> (cur, j));
          (f, j) = updateFields (CommentFieldSet (comment_id c)) isNewDoc (comment_fields c)
                     commentFields (field_values currentDoc, j);
          j = (if isNewDoc then j @ [RepliesCreate (comment_id c)] else j);
          (rd, j) = updateCommentRepliesDoc (comment_id c) (replies_doc currentDoc, j) (replies c)
      in updateCommentsDoc
           (commentsDoc(comment_id c \<mapsto> \<lparr> field_values = f, replies_doc = rd \<rparr>), j) cs)"

type_synonym ('a, 'v) post_txn = "('a, 'v) post_doc \<times> ('a, 'v) mutation list"

definition updatePostDoc :: "('a, 'v) post_txn \<Rightarrow> ('a, 'v) post \<Rightarrow> ('a, 'v) post_txn" where
  "updatePostDoc t newPost =
     (let (postDoc, j) = t;
          (ttl, j) = (if title_entry postDoc \<noteq> post_title newPost
                      then (post_title newPost, j @ [TitleSet (post_title newPost)])
                      else (title_entry postDoc, j));
          (yDocBlocks, j) = (case blocks_entry postDoc of
                               None \<Rightarrow> (\<lparr> order = None, byClientId = None \<rparr>, j @ [BlocksCreate])
                             | Some b \<Rightarrow> (b, j));
          (yDocBlocks, j) = updateBlocksDoc (yDocBlocks, j) (post_blocks newPost) '''';
          (commentsDoc, j) = (case comments_entry postDoc of
                                None \<Rightarrow> (Map.empty, j @ [CommentsCreate])
                              | Some c \<Rightarrow> (c, j));
          (commentsDoc, j) = updateCommentsDoc (commentsDoc, j) (post_comments newPost)
      in (\<lparr> title_entry = ttl, blocks_entry = Some yDocBlocks,
             comments_entry = Some commentsDoc \<rparr>, j))"

section \<open>Tree codec: decoding\<close>

text \<open>
  What \<^verbatim>\<open>blocksDocToArray\<close> builds for one id of an order list: the stored block's
  properties, if the id has an entry in \<^verbatim>\<open>byClientId\<close> (spreading \<^verbatim>\<open>undefined\<close> adds
  no property), and the decoded inner blocks.
\<close>

datatype 'a decoded_block =
  Decoded (stored: "(string \<times> 'a) option") (decodedInner: "'a decoded_block list")

text \<open>A block of the editor, as the object the decoder would have to return for it.\<close>

fun asDecoded :: "'a block \<Rightarrow> 'a decoded_block" where
  "asDecoded (Block c a inner) = Decoded (Some (c, a)) (map asDecoded inner)"

datatype js_error = TypeError | RangeError

text \<open>
  \<^verbatim>\<open>blocksDocToArray\<close> recurses along the order lists of the store, which need not be
  well-founded. The first argument bounds the depth of nested calls, as the call stack
  does; exceeding it is the \<^const>\<open>RangeError\<close> of a stack overflow. Reading a key of a
  missing \<^verbatim>\<open>order\<close> or \<^verbatim>\<open>byClientId\<close> map is a \<^const>\<open>TypeError\<close>.
\<close>

fun blocksDocToArray :: "nat \<Rightarrow> 'a blocks_doc option \<Rightarrow> string \<Rightarrow> js_error + 'a decoded_block list"
  and decodeEach :: "nat \<Rightarrow> 'a blocks_doc \<Rightarrow> string list \<Rightarrow> js_error + 'a decoded_block list" where
  "blocksDocToArray 0 yDocBlocks parent = Inl RangeError"
| "blocksDocToArray (Suc n) None parent = Inr []"
| "blocksDocToArray (Suc n) (Some d) parent =
     (case order d of
        None \<Rightarrow> Inl TypeError
      | Some m \<Rightarrow> (case m parent of None \<Rightarrow> Inr [] | Some ids \<Rightarrow> decodeEach n d ids))"
| "decodeEach n d [] = Inr []"
| "decodeEach n d (i # ids) =
     (case byClientId d of
        None \<Rightarrow> Inl TypeError
      | Some c \<Rightarrow>
          (case blocksDocToArray n (Some d) i of
             Inl e \<Rightarrow> Inl e
           | Inr inner \<Rightarrow>
               (case decodeEach n d ids of
                  Inl e \<Rightarrow> Inl e
                | Inr rest \<Rightarrow> Inr (Decoded (c i) inner # rest))))"

text \<open>
  The result of \<^verbatim>\<open>postDocToObject\<close>: the title (\<^verbatim>\<open>postDoc.get( 'title' ) || ''\<close>) and the
  decoded blocks. Its third component, the comment list, is computed from the comments map
  alone by \<^verbatim>\<open>commentsDocToArray\<close>; it is not part of this development.
\<close>

record 'a post_object =
  title :: string
  blocks :: "'a decoded_block list"

definition postDocToObject :: "nat \<Rightarrow> ('a, 'v) post_doc \<Rightarrow> js_error + 'a post_object" where
  "postDocToObject depth postDoc =
     (case blocksDocToArray depth (blocks_entry postDoc) '''' of
        Inl e \<Rightarrow> Inl e
      | Inr bs \<Rightarrow>
          Inr \<lparr> title = (case title_entry postDoc of
                            None \<Rightarrow> ''''
                          | Some t \<Rightarrow> if t = '''' then '''' else t),
                blocks = bs \<rparr>)"

section \<open>Byte arrays on the wire\<close>

text \<open>
  State vectors and updates are \<^verbatim>\<open>Uint8Array\<close>s. \<^verbatim>\<open>encodeArray\<close> is the array's
  \<^verbatim>\<open>toString()\<close>: the decimal numerals of the bytes, joined by commas. \<^verbatim>\<open>decodeArray\<close>
  splits the text at the commas and builds a \<^verbatim>\<open>Uint8Array\<close> from the pieces, which
  converts each piece to a number and reduces it modulo 256.
\<close>

type_synonym byte = "8 word"

definition digitChar :: "nat \<Rightarrow> char" where
  "digitChar d = ''0123456789'' ! d"

definition digitValue :: "char \<Rightarrow> nat option" where
  "digitValue c = map_of (zip ''0123456789'' [0, 1, 2, 3, 4, 5, 6, 7, 8, 9]) c"

text \<open>The decimal numeral of a natural number, as \<^verbatim>\<open>Number.prototype.toString\<close> writes it.\<close>

function numberToString :: "nat \<Rightarrow> string" where
  "numberToString n =
     (if n < 10 then [digitChar n] else numberToString (n div 10) @ [digitChar (n mod 10)])"
  by pat_completeness auto
termination
  by (relation "measure id") auto

text \<open>\<^verbatim>\<open>Array.prototype.join\<close> with a one-character separator.\<close>

fun join :: "char \<Rightarrow> string list \<Rightarrow> string" where
  "join sep [] = []"
| "join sep [w] = w"
| "join sep (w # v # ws) = w @ sep # join sep (v # ws)"

text \<open>
  \<^verbatim>\<open>String.prototype.split\<close> with a one-character separator: the empty string splits into
  one empty piece.
\<close>

fun split :: "char \<Rightarrow> string \<Rightarrow> string list" where
  "split sep [] = [[]]"
| "split sep (c # cs) =
     (if c = sep then [] # split sep cs
      else (case split sep cs of w # ws \<Rightarrow> (c # w) # ws | [] \<Rightarrow> [[c]]))"

definition encodeArray :: "byte list \<Rightarrow> string" where
  "encodeArray array = join CHR '','' (map (\<lambda>b. numberToString (unat b)) array)"

text \<open>Reading a run of decimal digits, most significant first.\<close>

fun digitsValue :: "nat \<Rightarrow> string \<Rightarrow> nat option" where
  "digitsValue acc [] = Some acc"
| "digitsValue acc (c # cs) =
     (case digitValue c of None \<Rightarrow> None | Some d \<Rightarrow> digitsValue (10 * acc + d) cs)"

text \<open>
  The conversion of one piece to a byte, \<^verbatim>\<open>ToNumber\<close> followed by \<^verbatim>\<open>ToUint8\<close>: the empty
  string is the number 0, and a run of decimal digits is its value reduced modulo 256. This
  is what the language does on the empty string and on every decimal numeral below
  \<open>2 ^ 53\<close>, so on every piece \<^verbatim>\<open>encodeArray\<close> writes. The rest of the numeric literals
  of the language is not modelled: a sign (\<^verbatim>\<open>-1\<close> is the byte 255 in the code), a fraction
  (\<^verbatim>\<open>1.9\<close> is 1), an exponent (\<^verbatim>\<open>1e2\<close> is 100), a radix prefix (\<^verbatim>\<open>0x10\<close> is 16),
  surrounding white space (\<^verbatim>\<open> 7\<close> is 7) and the rounding of longer numerals to a double
  are all read here as the byte 0 or as the unrounded value. The theorems below therefore
  speak of \<^verbatim>\<open>decodeArray\<close> only on texts that \<^verbatim>\<open>encodeArray\<close> wrote.
\<close>

definition stringToUint8 :: "string \<Rightarrow> byte" where
  "stringToUint8 s = (case digitsValue 0 s of None \<Rightarrow> 0 | Some n \<Rightarrow> of_nat n)"

definition decodeArray :: "string \<Rightarrow> byte list" where
  "decodeArray string = map stringToUint8 (split CHR '','' string)"

section \<open>The document of one client\<close>

text \<open>
  \<^verbatim>\<open>createDocument\<close> closes over a Yjs document, the connection state, the undo manager
  (absent until the state first becomes \<^verbatim>\<open>on\<close>) and two lists of listeners. Its
  parameters \<^verbatim>\<open>applyDataChanges\<close> and \<^verbatim>\<open>getData\<close> are the tree codec's
  \<^verbatim>\<open>updatePostDoc\<close> and \<^verbatim>\<open>postDocToObject\<close>, as \<^verbatim>\<open>initYDoc\<close> passes them.
\<close>

datatype conn_state = Off | Connecting | On

text \<open>
  What an operation can throw: the strings \<^verbatim>\<open>'wrong state'\<close> and \<^verbatim>\<open>'wrong protocol'\<close>, an
  error of the language, or an error raised inside the replication library.
\<close>

datatype thrown = WrongState | WrongProtocol | Js js_error | Library

text \<open>
  A message of the protocol, with the fields the code reads and writes. A field that is
  missing is \<^const>\<open>None\<close>; a missing \<^verbatim>\<open>isReply\<close> is \<^const>\<open>False\<close>, which is how the code
  tests it.
\<close>

record message =
  protocol :: string
  messageType :: string
  origin :: "string option"
  destination :: "string option"
  isReply :: bool
  stateVector :: "string option"
  update :: "string option"

text \<open>The editor's selection; \<^verbatim>\<open>selection?.start\<close> is truthy when the start is there.\<close>

record 'p selection =
  sel_start :: "'p option"
  sel_end :: "'p option"

text \<open>
  An item of the undo manager's stacks: the change it would revert, opaque here, and the
  entry \<^verbatim>\<open>caret-location\<close> of its \<^verbatim>\<open>meta\<close> map.
\<close>

record ('c, 'p) stack_item =
  change :: 'c
  caretLocation :: "'p selection option"

text \<open>The stacks grow at the end: the top of a stack is its last element.\<close>

record ('c, 'p) undo_manager =
  undoStack :: "('c, 'p) stack_item list"
  redoStack :: "('c, 'p) stack_item list"
  lastChange :: nat

text \<open>
  The origin of a transaction: a value given by the code (the client's identity, or the
  \<^verbatim>\<open>origin\<close> field of a received message, which may be missing), or the undo manager
  itself.
\<close>

datatype tx_origin = Tagged "string option" | ByUndoManager

text \<open>
  The Yjs document: the content of its map \<^verbatim>\<open>post\<close>, on which the tree codec works, and
  the library's own bookkeeping, of which nothing is known here.
\<close>

record ('a, 'v, 'm) ydoc =
  post :: "('a, 'v) post_doc"
  internals :: 'm

text \<open>
  The replication library, as far as the document uses it; its functions are parameters.
  \<^verbatim>\<open>encodeStateAsUpdate\<close> and \<^verbatim>\<open>applyUpdate\<close> read bytes that came over the wire and may
  raise. \<^verbatim>\<open>applyUpdate\<close> returns the merged document and, if the merge changed it, the
  bytes of the update event and the change an undo manager would record. \<open>commit\<close> ends a
  transaction of the tree codec that changed the document, given the codec's journal.
  \<open>revert\<close> undoes the change of a stack item, if that changes the document at all.
\<close>

record ('a, 'v, 'm, 'c) library =
  newInternals :: 'm
  encodeStateVector :: "('a, 'v, 'm) ydoc \<Rightarrow> byte list"
  encodeStateAsUpdate :: "('a, 'v, 'm) ydoc \<Rightarrow> byte list \<Rightarrow> thrown + byte list"
  applyUpdate :: "('a, 'v, 'm) ydoc \<Rightarrow> byte list
                    \<Rightarrow> thrown + ('a, 'v, 'm) ydoc \<times> (byte list \<times> 'c) option"
  commit :: "'m \<Rightarrow> ('a, 'v) mutation list \<Rightarrow> 'm \<times> byte list \<times> 'c"
  revert :: "('a, 'v, 'm) ydoc \<Rightarrow> 'c \<Rightarrow> (('a, 'v, 'm) ydoc \<times> byte list \<times> 'c) option"
  mergeChange :: "'c \<Rightarrow> 'c \<Rightarrow> 'c"

text \<open>
  The arguments of \<^verbatim>\<open>createDocument\<close> that do not change, with the depth of the call
  stack available to \<^verbatim>\<open>getData\<close>.
\<close>

record ('a, 'v, 'm, 'c) config =
  identity :: string
  lib :: "('a, 'v, 'm, 'c) library"
  stackLimit :: nat

text \<open>What the surroundings answer during one call: \<^verbatim>\<open>getSelection()\<close> and the clock.\<close>

record 'p env =
  getSelection :: "'p selection"
  now :: nat

text \<open>
  The calls made on the callbacks, in order: \<^verbatim>\<open>sendMessage\<close>, a listener for remote data,
  a listener for the state, \<^verbatim>\<open>setSelection\<close>, and the store's \<^verbatim>\<open>setPeerSelection\<close>.
  Listeners are told apart by a number.
\<close>

datatype ('a, 'p) effect =
    Sent message
  | RemoteData nat "'a post_object"
  | StateChanged nat conn_state
  | SelectionSet "'p selection"
  | PeerSelectionSet string "'p selection"

record ('a, 'v, 'm, 'c, 'p) session =
  doc :: "('a, 'v, 'm) ydoc"
  state :: conn_state
  undoManager :: "('c, 'p) undo_manager option"
  listeners :: "nat list"
  stateListeners :: "nat list"
  effects :: "('a, 'p) effect list"

type_synonym ('a, 'v, 'm, 'c, 'p) outcome = "thrown option \<times> ('a, 'v, 'm, 'c, 'p) session"

definition createDocument :: "('a, 'v, 'm, 'c) config \<Rightarrow> ('a, 'v, 'm, 'c, 'p) session" where
  "createDocument cfg =
     \<lparr> doc = \<lparr> post = emptyPostDoc, internals = newInternals (lib cfg) \<rparr>,
       state = Off, undoManager = None, listeners = [], stateListeners = [], effects = [] \<rparr>"

definition sendMessage ::
  "message \<Rightarrow> ('a, 'v, 'm, 'c, 'p) session \<Rightarrow> ('a, 'v, 'm, 'c, 'p) session" where
  "sendMessage m s = s\<lparr> effects := effects s @ [Sent m] \<rparr>"

definition setSelection ::
  "'p selection \<Rightarrow> ('a, 'v, 'm, 'c, 'p) session \<Rightarrow> ('a, 'v, 'm, 'c, 'p) session" where
  "setSelection sel s = s\<lparr> effects := effects s @ [SelectionSet sel] \<rparr>"

subsection \<open>Undo manager\<close>

text \<open>
  \<^verbatim>\<open>setupUndoManagerOnReady\<close>, the first of the state listeners: it builds the undo manager
  when the state becomes \<^verbatim>\<open>on\<close> and there is none yet.
\<close>

definition setupUndoManagerOnReady ::
  "conn_state \<Rightarrow> ('a, 'v, 'm, 'c, 'p) session \<Rightarrow> ('a, 'v, 'm, 'c, 'p) session" where
  "setupUndoManagerOnReady newState s =
     (if newState = On \<and> undoManager s = None
      then s\<lparr> undoManager := Some \<lparr> undoStack = [], redoStack = [], lastChange = 0 \<rparr> \<rparr>
      else s)"

text \<open>The handler of \<^verbatim>\<open>stack-item-added\<close>: the current selection goes into the new item.\<close>

definition stackItemAdded :: "'p env \<Rightarrow> ('c, 'p) stack_item \<Rightarrow> ('c, 'p) stack_item" where
  "stackItemAdded e item = item\<lparr> caretLocation := Some (getSelection e) \<rparr>"

datatype pop_type = UndoType | RedoType

record ('c, 'p) pop_event =
  popType :: pop_type
  stackItem :: "('c, 'p) stack_item"

text \<open>\<^verbatim>\<open>Array.prototype.at( -1 )\<close>: the last element, if there is one.\<close>

definition atLast :: "'x list \<Rightarrow> 'x option" where
  "atLast xs = (if xs = [] then None else Some (last xs))"

text \<open>
  The handler of \<^verbatim>\<open>stack-item-popped\<close>. It runs when the undo manager has taken the item off
  its stack.
\<close>

definition stackItemPopped ::
  "('c, 'p) pop_event \<Rightarrow> ('a, 'v, 'm, 'c, 'p) session \<Rightarrow> ('a, 'v, 'm, 'c, 'p) session" where
  "stackItemPopped event s =
     (let selectionReferenceItem =
            (if popType event = UndoType
             then (case undoManager s of None \<Rightarrow> None | Some um \<Rightarrow> atLast (undoStack um))
             else Some (stackItem event));
          selection = (case selectionReferenceItem of
                         None \<Rightarrow> None
                       | Some item \<Rightarrow> caretLocation item)
      in case selection of
           None \<Rightarrow> s
         | Some sel \<Rightarrow> if sel_start sel \<noteq> None then setSelection sel s else s)"

text \<open>
  The library's undo manager tracks the transactions whose origin is the client's identity
  (\<^verbatim>\<open>trackedOrigins\<close>) or the manager itself.
\<close>

definition tracked :: "('a, 'v, 'm, 'c) config \<Rightarrow> tx_origin \<Rightarrow> bool" where
  "tracked cfg orig = (orig = Tagged (Some (identity cfg)) \<or> orig = ByUndoManager)"

definition captureTimeout :: nat where
  "captureTimeout = 500"

text \<open>
  What the library's undo manager does after a tracked transaction that changed the
  document. While undoing, the new item goes on the redo stack; otherwise on the undo
  stack, unless the last change is recent enough for the new one to be merged into the
  top item. A change that is neither an undo nor a redo empties the redo stack. A new item
  is announced by \<^verbatim>\<open>stack-item-added\<close>, whose handler is \<^const>\<open>stackItemAdded\<close>.
\<close>

definition afterTransaction ::
  "('a, 'v, 'm, 'c) config \<Rightarrow> 'p env \<Rightarrow> tx_origin \<Rightarrow> 'c \<Rightarrow> bool \<Rightarrow> bool
     \<Rightarrow> ('c, 'p) undo_manager \<Rightarrow> ('c, 'p) undo_manager" where
  "afterTransaction cfg e orig c undoing redoing um =
     (if \<not> tracked cfg orig then um
      else
        let um = (if undoing then um\<lparr> lastChange := 0 \<rparr>
                  else if \<not> redoing then um\<lparr> redoStack := [] \<rparr> else um);
            stack = (if undoing then redoStack um else undoStack um);
            stack =
              (if 0 < lastChange um \<and> now e - lastChange um < captureTimeout \<and> stack \<noteq> []
                  \<and> \<not> undoing \<and> \<not> redoing
               then butlast stack
                      @ [(last stack)\<lparr> change := mergeChange (lib cfg) (change (last stack)) c \<rparr>]
               else stack @ [stackItemAdded e \<lparr> change = c, caretLocation = None \<rparr>]);
            um = (if undoing then um\<lparr> redoStack := stack \<rparr> else um\<lparr> undoStack := stack \<rparr>)
        in if \<not> undoing \<and> \<not> redoing then um\<lparr> lastChange := now e \<rparr> else um)"

subsection \<open>Update events\<close>

text \<open>
  The handler of the document's \<^verbatim>\<open>update\<close> event. A local update is sent while the state is
  \<^verbatim>\<open>on\<close>; an update whose origin is not the identity is decoded and given to the listeners.
  \<^verbatim>\<open>getData\<close> may raise, and then the listeners are not called.
\<close>

definition onUpdate ::
  "('a, 'v, 'm, 'c) config \<Rightarrow> byte list \<Rightarrow> tx_origin \<Rightarrow> ('a, 'v, 'm, 'c, 'p) session
     \<Rightarrow> ('a, 'v, 'm, 'c, 'p) outcome" where
  "onUpdate cfg upd orig s =
     (let isLocalOrigin = (orig = Tagged (Some (identity cfg)) \<or> orig = ByUndoManager);
          s = (if isLocalOrigin \<and> state s = On
               then sendMessage \<lparr> protocol = ''yjs1'', messageType = ''syncUpdate'',
                                  origin = None, destination = None, isReply = False,
                                  stateVector = None, update = Some (encodeArray upd) \<rparr> s
               else s)
      in if orig \<noteq> Tagged (Some (identity cfg))
         then (case postDocToObject (stackLimit cfg) (post (doc s)) of
                 Inl err \<Rightarrow> (Some (Js err), s)
               | Inr newData \<Rightarrow>
                   (None, s\<lparr> effects := effects s @ map (\<lambda>l. RemoteData l newData) (listeners s) \<rparr>))
         else (None, s))"

text \<open>
  The end of a transaction that changed the document: the undo manager, if there is one,
  sees it first, then the \<^verbatim>\<open>update\<close> event is emitted.
\<close>

definition afterCommit ::
  "('a, 'v, 'm, 'c) config \<Rightarrow> 'p env \<Rightarrow> tx_origin \<Rightarrow> byte list \<Rightarrow> 'c \<Rightarrow> bool \<Rightarrow> bool
     \<Rightarrow> ('a, 'v, 'm, 'c, 'p) session \<Rightarrow> ('a, 'v, 'm, 'c, 'p) outcome" where
  "afterCommit cfg e orig upd c undoing redoing s =
     onUpdate cfg upd orig
       (s\<lparr> undoManager :=
             map_option (afterTransaction cfg e orig c undoing redoing) (undoManager s) \<rparr>)"

text \<open>
  \<^verbatim>\<open>doc.transact( () => { applyDataChanges( doc, data ) }, origin )\<close>: the codec rewrites the
  map \<^verbatim>\<open>post\<close>; if any of its calls changed the document, the transaction is committed and
  its events follow.
\<close>

definition transact ::
  "('a, 'v, 'm, 'c) config \<Rightarrow> 'p env \<Rightarrow> tx_origin \<Rightarrow> ('a, 'v) post
     \<Rightarrow> ('a, 'v, 'm, 'c, 'p) session \<Rightarrow> ('a, 'v, 'm, 'c, 'p) outcome" where
  "transact cfg e orig data s =
     (let (postDoc, journal) = updatePostDoc (post (doc s), []) data
      in if list_ex changes journal
         then let (m, upd, c) = commit (lib cfg) (internals (doc s)) journal
              in afterCommit cfg e orig upd c False False
                   (s\<lparr> doc := \<lparr> post = postDoc, internals = m \<rparr> \<rparr>)
         else (None, s\<lparr> doc := (doc s)\<lparr> post := postDoc \<rparr> \<rparr>))"

subsection \<open>The operations of the document\<close>

definition setState ::
  "conn_state \<Rightarrow> ('a, 'v, 'm, 'c, 'p) session \<Rightarrow> ('a, 'v, 'm, 'c, 'p) session" where
  "setState newState s =
     (let s = setupUndoManagerOnReady newState (s\<lparr> state := newState \<rparr>)
      in s\<lparr> effects := effects s @ map (\<lambda>l. StateChanged l newState) (stateListeners s) \<rparr>)"

definition sync ::
  "('a, 'v, 'm, 'c) config \<Rightarrow> string option \<Rightarrow> bool \<Rightarrow> ('a, 'v, 'm, 'c, 'p) session
     \<Rightarrow> ('a, 'v, 'm, 'c, 'p) session" where
  "sync cfg dest reply s =
     sendMessage \<lparr> protocol = ''yjs1'', messageType = ''sync1'',
                   origin = Some (identity cfg), destination = dest, isReply = reply,
                   stateVector = Some (encodeArray (encodeStateVector (lib cfg) (doc s))),
                   update = None \<rparr> s"

definition applyDataChanges ::
  "('a, 'v, 'm, 'c) config \<Rightarrow> 'p env \<Rightarrow> ('a, 'v) post \<Rightarrow> ('a, 'v, 'm, 'c, 'p) session
     \<Rightarrow> ('a, 'v, 'm, 'c, 'p) outcome" where
  "applyDataChanges cfg e data s =
     (if state s \<noteq> On then (Some WrongState, s)
      else transact cfg e (Tagged (Some (identity cfg))) data s)"

definition connect ::
  "('a, 'v, 'm, 'c) config \<Rightarrow> ('a, 'v, 'm, 'c, 'p) session \<Rightarrow> ('a, 'v, 'm, 'c, 'p) outcome" where
  "connect cfg s =
     (if state s = On then (Some WrongState, s)
      else (None, sync cfg None False (setState Connecting s)))"

definition disconnect :: "('a, 'v, 'm, 'c, 'p) session \<Rightarrow> ('a, 'v, 'm, 'c, 'p) outcome" where
  "disconnect s = (None, setState Off s)"

definition startSharing ::
  "('a, 'v, 'm, 'c) config \<Rightarrow> 'p env \<Rightarrow> ('a, 'v) post \<Rightarrow> ('a, 'v, 'm, 'c, 'p) session
     \<Rightarrow> ('a, 'v, 'm, 'c, 'p) outcome" where
  "startSharing cfg e data s =
     (if state s = On then (Some WrongState, s)
      else applyDataChanges cfg e data (setState On s))"

text \<open>
  \<^verbatim>\<open>yjs.applyUpdate( doc, decodeArray( content.update ), origin )\<close>. A message without an
  \<^verbatim>\<open>update\<close> makes \<^verbatim>\<open>decodeArray\<close> read a property of \<^verbatim>\<open>undefined\<close>.
\<close>

definition applyRemote ::
  "('a, 'v, 'm, 'c) config \<Rightarrow> 'p env \<Rightarrow> message \<Rightarrow> ('a, 'v, 'm, 'c, 'p) session
     \<Rightarrow> ('a, 'v, 'm, 'c, 'p) outcome" where
  "applyRemote cfg e m s =
     (case update m of
        None \<Rightarrow> (Some (Js TypeError), s)
      | Some text \<Rightarrow>
          (case applyUpdate (lib cfg) (doc s) (decodeArray text) of
             Inl err \<Rightarrow> (Some err, s)
           | Inr (d, None) \<Rightarrow> (None, s\<lparr> doc := d \<rparr>)
           | Inr (d, Some (upd, c)) \<Rightarrow>
               afterCommit cfg e (Tagged (origin m)) upd c False False (s\<lparr> doc := d \<rparr>)))"

definition receiveMessage ::
  "('a, 'v, 'm, 'c) config \<Rightarrow> 'p env \<Rightarrow> message \<Rightarrow> ('a, 'v, 'm, 'c, 'p) session
     \<Rightarrow> ('a, 'v, 'm, 'c, 'p) outcome" where
  "receiveMessage cfg e m s =
     (if protocol m \<noteq> ''yjs1'' then (Some WrongProtocol, s)
      else if messageType m = ''sync1'' then
        (if destination m \<noteq> None \<and> destination m \<noteq> Some [] \<and> destination m \<noteq> Some (identity cfg)
         then (None, s)
         else (case stateVector m of
                 None \<Rightarrow> (Some (Js TypeError), s)
               | Some sv \<Rightarrow>
                   (case encodeStateAsUpdate (lib cfg) (doc s) (decodeArray sv) of
                      Inl err \<Rightarrow> (Some err, s)
                    | Inr upd \<Rightarrow>
                        (let s = sendMessage
                                   \<lparr> protocol = ''yjs1'', messageType = ''sync2'',
                                     origin = None, destination = origin m, isReply = False,
                                     stateVector = None, update = Some (encodeArray upd) \<rparr> s
                         in (None, if \<not> isReply m then sync cfg (origin m) True s else s)))))
      else if messageType m = ''sync2'' then
        (if destination m \<noteq> Some (identity cfg) then (None, s)
         else (case applyRemote cfg e m s of
                 (Some err, s) \<Rightarrow> (Some err, s)
               | (None, s) \<Rightarrow> (None, setState On s)))
      else if messageType m = ''syncUpdate'' then applyRemote cfg e m s
      else (None, s))"

definition onRemoteDataChange ::
  "nat \<Rightarrow> ('a, 'v, 'm, 'c, 'p) session \<Rightarrow> ('a, 'v, 'm, 'c, 'p) session" where
  "onRemoteDataChange listener s = s\<lparr> listeners := listeners s @ [listener] \<rparr>"

definition removeRemoteDataChange ::
  "nat \<Rightarrow> ('a, 'v, 'm, 'c, 'p) session \<Rightarrow> ('a, 'v, 'm, 'c, 'p) session" where
  "removeRemoteDataChange listener s =
     s\<lparr> listeners := filter (\<lambda>l. l \<noteq> listener) (listeners s) \<rparr>"

definition onStateChange ::
  "nat \<Rightarrow> ('a, 'v, 'm, 'c, 'p) session \<Rightarrow> ('a, 'v, 'm, 'c, 'p) session" where
  "onStateChange listener s = s\<lparr> stateListeners := stateListeners s @ [listener] \<rparr>"

definition removeStateChange ::
  "nat \<Rightarrow> ('a, 'v, 'm, 'c, 'p) session \<Rightarrow> ('a, 'v, 'm, 'c, 'p) session" where
  "removeStateChange listener s =
     s\<lparr> stateListeners := filter (\<lambda>l. l \<noteq> listener) (stateListeners s) \<rparr>"

definition getState :: "('a, 'v, 'm, 'c, 'p) session \<Rightarrow> conn_state" where
  "getState s = state s"

subsection \<open>Undo and redo\<close>

definition hasUndo :: "('a, 'v, 'm, 'c, 'p) session \<Rightarrow> bool" where
  "hasUndo s = (1 < (case undoManager s of None \<Rightarrow> 0 | Some um \<Rightarrow> length (undoStack um)))"

definition hasRedo :: "('a, 'v, 'm, 'c, 'p) session \<Rightarrow> bool" where
  "hasRedo s = (case undoManager s of None \<Rightarrow> False | Some um \<Rightarrow> length (redoStack um) \<noteq> 0)"

text \<open>
  The library takes items off the top of a stack until reverting one changes the
  document. The stack is given top first; the result is what remains, top first, and the
  item that was reverted with the document, the update and the change that came of it.
\<close>

fun popStackItem ::
  "('a, 'v, 'm, 'c) library \<Rightarrow> ('a, 'v, 'm) ydoc \<Rightarrow> ('c, 'p) stack_item list
     \<Rightarrow> ('c, 'p) stack_item list
         \<times> (('c, 'p) stack_item \<times> ('a, 'v, 'm) ydoc \<times> byte list \<times> 'c) option" where
  "popStackItem l d [] = ([], None)"
| "popStackItem l d (item # below) =
     (case revert l d (change item) of
        None \<Rightarrow> popStackItem l d below
      | Some r \<Rightarrow> (below, Some (item, r)))"

text \<open>
  The library's \<^verbatim>\<open>undo()\<close> on an undo manager that exists: the transaction that reverts the
  item has the manager as its origin, its change goes on the redo stack, the \<^verbatim>\<open>update\<close>
  event follows, and \<^verbatim>\<open>stack-item-popped\<close> is emitted last.
\<close>

definition managerUndo ::
  "('a, 'v, 'm, 'c) config \<Rightarrow> 'p env \<Rightarrow> ('c, 'p) undo_manager \<Rightarrow> ('a, 'v, 'm, 'c, 'p) session
     \<Rightarrow> ('a, 'v, 'm, 'c, 'p) outcome" where
  "managerUndo cfg e um s =
     (case popStackItem (lib cfg) (doc s) (rev (undoStack um)) of
        (below, None) \<Rightarrow> (None, s\<lparr> undoManager := Some (um\<lparr> undoStack := rev below \<rparr>) \<rparr>)
      | (below, Some (item, d, upd, c)) \<Rightarrow>
          (case afterCommit cfg e ByUndoManager upd c True False
                  (s\<lparr> doc := d, undoManager := Some (um\<lparr> undoStack := rev below \<rparr>) \<rparr>) of
             (Some err, s) \<Rightarrow> (Some err, s)
           | (None, s) \<Rightarrow>
               (None, stackItemPopped \<lparr> popType = UndoType, stackItem = item \<rparr> s)))"

definition managerRedo ::
  "('a, 'v, 'm, 'c) config \<Rightarrow> 'p env \<Rightarrow> ('c, 'p) undo_manager \<Rightarrow> ('a, 'v, 'm, 'c, 'p) session
     \<Rightarrow> ('a, 'v, 'm, 'c, 'p) outcome" where
  "managerRedo cfg e um s =
     (case popStackItem (lib cfg) (doc s) (rev (redoStack um)) of
        (below, None) \<Rightarrow> (None, s\<lparr> undoManager := Some (um\<lparr> redoStack := rev below \<rparr>) \<rparr>)
      | (below, Some (item, d, upd, c)) \<Rightarrow>
          (case afterCommit cfg e ByUndoManager upd c False True
                  (s\<lparr> doc := d, undoManager := Some (um\<lparr> redoStack := rev below \<rparr>) \<rparr>) of
             (Some err, s) \<Rightarrow> (Some err, s)
           | (None, s) \<Rightarrow>
               (None, stackItemPopped \<lparr> popType = RedoType, stackItem = item \<rparr> s)))"

text \<open>\<^verbatim>\<open>undoManager?.undo()\<close> and \<^verbatim>\<open>undoManager?.redo()\<close>.\<close>

definition undo ::
  "('a, 'v, 'm, 'c) config \<Rightarrow> 'p env \<Rightarrow> ('a, 'v, 'm, 'c, 'p) session
     \<Rightarrow> ('a, 'v, 'm, 'c, 'p) outcome" where
  "undo cfg e s = (case undoManager s of None \<Rightarrow> (None, s) | Some um \<Rightarrow> managerUndo cfg e um s)"

definition redo ::
  "('a, 'v, 'm, 'c) config \<Rightarrow> 'p env \<Rightarrow> ('a, 'v, 'm, 'c, 'p) session
     \<Rightarrow> ('a, 'v, 'm, 'c, 'p) outcome" where
  "redo cfg e s = (case undoManager s of None \<Rightarrow> (None, s) | Some um \<Rightarrow> managerRedo cfg e um s)"

subsection \<open>The hook around the document\<close>

text \<open>
  \<^verbatim>\<open>applyChangesToYjs\<close> of \<^verbatim>\<open>initYDoc\<close>, the callback the editor calls with its blocks: it
  returns at once unless the state is \<^verbatim>\<open>on\<close>, and hands \<^verbatim>\<open>{ blocks }\<close> to the document.
\<close>

definition applyChangesToYjs ::
  "('a, 'v, 'm, 'c) config \<Rightarrow> 'p env \<Rightarrow> 'a block list \<Rightarrow> ('a, 'v, 'm, 'c, 'p) session
     \<Rightarrow> ('a, 'v, 'm, 'c, 'p) outcome" where
  "applyChangesToYjs cfg e bs s =
     (if getState s \<noteq> On then (None, s)
      else applyDataChanges cfg e \<lparr> post_title = None, post_blocks = bs, post_comments = [] \<rparr> s)"

text \<open>What the transport delivers, and \<^verbatim>\<open>onReceiveMessage\<close>, which the transport calls.\<close>

datatype 'p transport_message =
    DocMessage string message
  | SelectionMessage string "'p selection"

fun onReceiveMessage ::
  "('a, 'v, 'm, 'c) config \<Rightarrow> 'p env \<Rightarrow> 'p transport_message \<Rightarrow> ('a, 'v, 'm, 'c, 'p) session
     \<Rightarrow> ('a, 'v, 'm, 'c, 'p) outcome" where
  "onReceiveMessage cfg e (DocMessage sender m) s = receiveMessage cfg e m s"
| "onReceiveMessage cfg e (SelectionMessage sender sel) s =
     (None, s\<lparr> effects := effects s @ [PeerSelectionSet sender sel] \<rparr>)"

section \<open>Notions used to state the properties\<close>

text \<open>The ids of a forest of blocks, parents before children, left to right.\<close>

fun blockIds :: "'a block list \<Rightarrow> string list" where
  "blockIds [] = []"
| "blockIds (Block c a inner # bs) = c # blockIds inner @ blockIds bs"

text \<open>The number of levels of a forest.\<close>

fun treeDepth :: "'a block list \<Rightarrow> nat" where
  "treeDepth [] = 0"
| "treeDepth (Block c a inner # bs) = max (Suc (treeDepth inner)) (treeDepth bs)"

text \<open>
  A tree is well formed when no id occurs twice in it and no block carries the empty id,
  which is the key of the root's order list.
\<close>

definition wellFormed :: "'a block list \<Rightarrow> bool" where
  "wellFormed bs = (distinct (blockIds bs) \<and> [] \<notin> set (blockIds bs))"

text \<open>Reading the order list of a parent and the stored block of an id.\<close>

definition orderOf :: "'a blocks_doc \<Rightarrow> string \<Rightarrow> string list option" where
  "orderOf d p = (case order d of None \<Rightarrow> None | Some m \<Rightarrow> m p)"

definition contentOf :: "'a blocks_doc \<Rightarrow> string \<Rightarrow> (string \<times> 'a) option" where
  "contentOf d i = (case byClientId d of None \<Rightarrow> None | Some c \<Rightarrow> c i)"

text \<open>
  The store holds the forest \<open>bs\<close> under the parent \<open>p\<close>: the order list of \<open>p\<close> is the
  list of the ids of \<open>bs\<close>, each block of \<open>bs\<close> is stored under its id, and the same holds
  of its inner blocks under that id.
\<close>

fun represents :: "'a blocks_doc \<Rightarrow> string \<Rightarrow> 'a block list \<Rightarrow> bool"
  and holdsEach :: "'a blocks_doc \<Rightarrow> 'a block list \<Rightarrow> bool" where
  "represents d p bs =
     (orderOf d p = Some (map clientId bs) \<and> byClientId d \<noteq> None \<and> holdsEach d bs)"
| "holdsEach d [] = True"
| "holdsEach d (Block c a inner # bs) =
     (contentOf d c = Some (c, a) \<and> represents d c inner \<and> holdsEach d bs)"

text \<open>The parent \<open>k\<close> has no children in the store: its order list is absent or empty.\<close>

definition freshAt :: "'a blocks_doc \<Rightarrow> string \<Rightarrow> bool" where
  "freshAt d k = (orderOf d k = None \<or> orderOf d k = Some [])"


text \<open>
  The initial store has no children recorded for the root or for any id of the forest
  \<open>bs\<close>; the empty store is the first example.
\<close>

definition freshFor :: "('a, 'v) post_doc \<Rightarrow> 'a block list \<Rightarrow> bool" where
  "freshFor postDoc bs =
     (case blocks_entry postDoc of
        None \<Rightarrow> True
      | Some d \<Rightarrow> list_all (freshAt d) ([] # blockIds bs))"

text \<open>None of the fields listed is not-a-number.\<close>

definition noNaN :: "string list \<Rightarrow> 'v fields \<Rightarrow> bool" where
  "noNaN names obj = list_all (\<lambda>n. obj n \<noteq> Some NaN) names"

text \<open>
  Comments are well formed when their ids differ, the ids of the replies of each differ, and
  no field that the codec writes is not-a-number.
\<close>

definition wellFormedComments :: "'v comment list \<Rightarrow> bool" where
  "wellFormedComments cs =
     (distinct (map comment_id cs) \<and>
      list_all (\<lambda>c. noNaN commentFields (comment_fields c) \<and>
                     distinct (map reply_id (replies c)) \<and>
                     list_all (\<lambda>r. noNaN replyFields (reply_fields r)) (replies c)) cs)"

text \<open>
  The stored map of a reply, or of a comment, agrees with the object on the fields listed:
  for none of them \<^verbatim>\<open>!==\<close> holds.
\<close>

definition holdsFields :: "string list \<Rightarrow> 'v fields \<Rightarrow> 'v fields \<Rightarrow> bool" where
  "holdsFields names f obj = list_all (\<lambda>n. \<not> strictNotEqual (f n) (obj n)) names"

definition holdsReplies :: "(string \<rightharpoonup> 'v fields) \<Rightarrow> 'v reply list \<Rightarrow> bool" where
  "holdsReplies rd rs =
     list_all (\<lambda>r. case rd (reply_id r) of
                      None \<Rightarrow> False
                    | Some cur \<Rightarrow> holdsFields replyFields cur (reply_fields r)) rs"

definition holdsComments :: "(string \<rightharpoonup> 'v comment_doc) \<Rightarrow> 'v comment list \<Rightarrow> bool" where
  "holdsComments m cs =
     list_all (\<lambda>c. case m (comment_id c) of
                      None \<Rightarrow> False
                    | Some cur \<Rightarrow> holdsFields commentFields (field_values cur) (comment_fields c) \<and>
                                  holdsReplies (replies_doc cur) (replies c)) cs"

text \<open>
  As \<^const>\<open>represents\<close>, but for the content: a block of the forest is stored under its id,
  or its id has no content at all.
\<close>

fun nearlyRepresents :: "'a blocks_doc \<Rightarrow> string \<Rightarrow> 'a block list \<Rightarrow> bool"
  and nearlyEach :: "'a blocks_doc \<Rightarrow> 'a block list \<Rightarrow> bool" where
  "nearlyRepresents d p bs =
     (orderOf d p = Some (map clientId bs) \<and> byClientId d \<noteq> None \<and> nearlyEach d bs)"
| "nearlyEach d [] = True"
| "nearlyEach d (Block c a inner # bs) =
     ((contentOf d c = None \<or> contentOf d c = Some (c, a)) \<and> nearlyRepresents d c inner \<and>
      nearlyEach d bs)"

text \<open>Every block of the forest \<open>bs\<close> has a content entry in the store.\<close>

definition contentKept :: "('a, 'v) post_doc \<Rightarrow> 'a block list \<Rightarrow> bool" where
  "contentKept postDoc bs =
     (case blocks_entry postDoc of
        None \<Rightarrow> False
      | Some d \<Rightarrow> list_all (\<lambda>i. contentOf d i \<noteq> None) (blockIds bs))"

text \<open>
  The weaker reading of well-formedness: no id occurs twice in one order list, that is among
  the children of one parent.
\<close>

fun siblingsDistinct :: "'a block list \<Rightarrow> bool" where
  "siblingsDistinct [] = True"
| "siblingsDistinct (Block c a inner # bs) =
     (c \<notin> set (map clientId bs) \<and> siblingsDistinct inner \<and> siblingsDistinct bs)"

text \<open>The empty blocks map, as \<^verbatim>\<open>updatePostDoc\<close> creates it.\<close>

definition emptyBlocksDoc :: "'a blocks_doc" where
  "emptyBlocksDoc = \<lparr> order = None, byClientId = None \<rparr>"

subsection \<open>Histories of a session\<close>

text \<open>The calls that can be made on a document and on the hook around it.\<close>

datatype ('a, 'v, 'p) call =
    ApplyDataChanges "('a, 'v) post"
  | Connect
  | Disconnect
  | StartSharing "('a, 'v) post"
  | ReceiveMessage message
  | OnRemoteDataChange nat
  | RemoveRemoteDataChange nat
  | OnStateChange nat
  | RemoveStateChange nat
  | Undo
  | Redo
  | ApplyChangesToYjs "'a block list"
  | OnReceiveMessage "'p transport_message"

fun perform ::
  "('a, 'v, 'm, 'c) config \<Rightarrow> 'p env \<Rightarrow> ('a, 'v, 'p) call \<Rightarrow> ('a, 'v, 'm, 'c, 'p) session
     \<Rightarrow> ('a, 'v, 'm, 'c, 'p) outcome" where
  "perform cfg e (ApplyDataChanges data) s = applyDataChanges cfg e data s"
| "perform cfg e Connect s = connect cfg s"
| "perform cfg e Disconnect s = disconnect s"
| "perform cfg e (StartSharing data) s = startSharing cfg e data s"
| "perform cfg e (ReceiveMessage m) s = receiveMessage cfg e m s"
| "perform cfg e (OnRemoteDataChange l) s = (None, onRemoteDataChange l s)"
| "perform cfg e (RemoveRemoteDataChange l) s = (None, removeRemoteDataChange l s)"
| "perform cfg e (OnStateChange l) s = (None, onStateChange l s)"
| "perform cfg e (RemoveStateChange l) s = (None, removeStateChange l s)"
| "perform cfg e Undo s = undo cfg e s"
| "perform cfg e Redo s = redo cfg e s"
| "perform cfg e (ApplyChangesToYjs bs) s = applyChangesToYjs cfg e bs s"
| "perform cfg e (OnReceiveMessage tm) s = onReceiveMessage cfg e tm s"

text \<open>
  The session after a list of calls, each with what the surroundings answer during it. A
  call that throws leaves the session as it was when it threw.
\<close>

fun run ::
  "('a, 'v, 'm, 'c) config \<Rightarrow> ('p env \<times> ('a, 'v, 'p) call) list \<Rightarrow> ('a, 'v, 'm, 'c, 'p) session
     \<Rightarrow> ('a, 'v, 'm, 'c, 'p) session" where
  "run cfg [] s = s"
| "run cfg ((e, c) # cs) s = run cfg cs (snd (perform cfg e c s))"

text \<open>The state is not \<^const>\<open>On\<close> at the start nor after any of the calls.\<close>

fun neverOn ::
  "('a, 'v, 'm, 'c) config \<Rightarrow> ('p env \<times> ('a, 'v, 'p) call) list \<Rightarrow> ('a, 'v, 'm, 'c, 'p) session
     \<Rightarrow> bool" where
  "neverOn cfg [] s = (state s \<noteq> On)"
| "neverOn cfg ((e, c) # cs) s = (state s \<noteq> On \<and> neverOn cfg cs (snd (perform cfg e c s)))"

text \<open>
  Restoring a recovered selection: nothing happens when there is none or when it has no
  start; otherwise \<^verbatim>\<open>setSelection\<close> is called with it.
\<close>

fun restoreCaret ::
  "'p selection option \<Rightarrow> ('a, 'v, 'm, 'c, 'p) session \<Rightarrow> ('a, 'v, 'm, 'c, 'p) session" where
  "restoreCaret None s = s"
| "restoreCaret (Some sel) s =
     (if sel_start sel = None then s else s\<lparr> effects := effects s @ [SelectionSet sel] \<rparr>)"

text \<open>
  A stand-in for the replication library, for concrete instances: the bookkeeping counts
  the committed transactions, a state vector is that count, every state vector but the
  single byte 1 is answered with an update of one more byte, and merging a received
  update changes nothing.
\<close>

definition exampleLibrary :: "(nat, nat, nat, nat) library" where
  "exampleLibrary =
     \<lparr> newInternals = 0,
       encodeStateVector = (\<lambda>d. [of_nat (internals d)]),
       encodeStateAsUpdate = (\<lambda>d sv. if sv = [1] then Inl Library else Inr (sv @ [of_nat (internals d)])),
       applyUpdate = (\<lambda>d bytes. Inr (d, None)),
       commit = (\<lambda>m journal. (Suc m, [of_nat (length journal)], length journal)),
       revert = (\<lambda>d c. None),
       mergeChange = (\<lambda>c c'. c + c') \<rparr>"

definition exampleConfig :: "(nat, nat, nat, nat) config" where
  "exampleConfig = \<lparr> identity = ''me'', lib = exampleLibrary, stackLimit = 8 \<rparr>"

definition exampleEnv :: "nat env" where
  "exampleEnv = \<lparr> getSelection = \<lparr> sel_start = Some 0, sel_end = Some 0 \<rparr>, now = 1000 \<rparr>"



definition syncRequest :: "string \<Rightarrow> string option \<Rightarrow> bool \<Rightarrow> byte list \<Rightarrow> message" where
  "syncRequest self dest reply sv =
     \<lparr> protocol = ''yjs1'', messageType = ''sync1'', origin = Some self, destination = dest,
       isReply = reply, stateVector = Some (encodeArray sv), update = None \<rparr>"

definition updateBroadcast :: "byte list \<Rightarrow> message" where
  "updateBroadcast upd =
     \<lparr> protocol = ''yjs1'', messageType = ''syncUpdate'', origin = None, destination = None,
       isReply = False, stateVector = None, update = Some (encodeArray upd) \<rparr>"

section \<open>Properties of the diff engine\<close>

lemma commonPrefix_le: "commonPrefix a b \<le> length a \<and> commonPrefix a b \<le> length b"
  by (induction a b rule: commonPrefix.induct) auto

lemma commonPrefix_take: "take (commonPrefix a b) a = take (commonPrefix a b) b"
  by (induction a b rule: commonPrefix.induct) auto

lemma commonPrefix_same: "commonPrefix xs xs = length xs"
  by (induction xs) auto

lemma commonPrefix_Nil: "commonPrefix [] ys = 0" "commonPrefix xs [] = 0"
  by (cases xs; simp)+

lemma commonSuffix_drop:
  "drop (length a - commonPrefix (rev a) (rev b)) a = drop (length b - commonPrefix (rev a) (rev b)) b"
proof -
  let ?r = "commonPrefix (rev a) (rev b)"
  have "take ?r (rev a) = take ?r (rev b)" by (rule commonPrefix_take)
  then have "rev (take ?r (rev a)) = rev (take ?r (rev b))" by simp
  then show ?thesis by (simp add: rev_take)
qed

lemma simpleDiffArray_bounds:
  "index (simpleDiffArray a b) + remove (simpleDiffArray a b) \<le> length a"
proof -
  define l where "l = commonPrefix a b"
  define r where "r = commonPrefix (rev (drop l a)) (rev (drop l b))"
  have "l \<le> length a" using commonPrefix_le [of a b] by (simp add: l_def)
  then have "l + (length a - l - r) \<le> length a" by arith
  then show ?thesis by (simp add: simpleDiffArray_def Let_def l_def r_def)
qed

lemma simpleDiffArray_applies:
  "array_insert (array_delete a (index (simpleDiffArray a b)) (remove (simpleDiffArray a b)))
     (index (simpleDiffArray a b)) (inserted (simpleDiffArray a b)) = b"
proof -
  define l where "l = commonPrefix a b"
  define a' where "a' = drop l a"
  define b' where "b' = drop l b"
  define r where "r = commonPrefix (rev a') (rev b')"
  have l: "l \<le> length a" "l \<le> length b" using commonPrefix_le [of a b] by (simp_all add: l_def)
  have r: "r \<le> length a'" "r \<le> length b'"
    using commonPrefix_le [of "rev a'" "rev b'"] by (simp_all add: r_def)
  have pre: "take l a = take l b" unfolding l_def by (rule commonPrefix_take)
  have suf: "drop (length a' - r) a' = drop (length b' - r) b'"
    unfolding r_def by (rule commonSuffix_drop)
  have "b = take l b @ b'" by (simp add: b'_def)
  also have "b' = take (length b' - r) b' @ drop (length b' - r) b'" by simp
  finally have b: "b = take l b @ take (length b' - r) b' @ drop (length b' - r) b'" .
  have la: "length a' = length a - l" "length b' = length b - l" by (simp_all add: a'_def b'_def)
  have e: "l + (length a - l - r) = (length a' - r) + l" using l r la by arith
  have d1: "drop (l + (length a - l - r)) a = drop (length a' - r) a'"
    unfolding e by (simp only: a'_def drop_drop)
  have "array_insert (array_delete a l (length a - l - r)) l (take (length b - l - r) (drop l b))
        = take l a @ take (length b' - r) b' @ drop (length a' - r) a'"
  proof -
    have t3: "take (length b - l - r) (drop l b) = take (length b' - r) b'"
      by (simp add: b'_def)
    show ?thesis
      unfolding array_insert_def array_delete_def t3 d1 using l by simp
  qed
  also have "\<dots> = b" using pre suf b by simp
  finally show ?thesis
    by (simp add: simpleDiffArray_def Let_def l_def r_def a'_def b'_def)
qed

lemma simpleDiffArray_same:
  "simpleDiffArray xs xs = \<lparr> index = length xs, remove = 0, inserted = [] \<rparr>"
  by (simp add: simpleDiffArray_def commonPrefix_same)

lemma simpleDiffArray_Nil:
  "simpleDiffArray [] ys = \<lparr> index = 0, remove = 0, inserted = ys \<rparr>"
  by (simp add: simpleDiffArray_def commonPrefix_Nil)


subsection \<open>The reordering scenario\<close>

text \<open>
  Claim C7, as amended. Moving the first of three blocks to the end, from \<open>[b1, b2, b3]\<close>
  to \<open>[b2, b3, b1]\<close> with \<open>b1\<close> different from \<open>b2\<close> and \<open>b3\<close>, leaves no common
  prefix (\<open>b1\<close> against \<open>b2\<close>) and no common suffix (\<open>b3\<close> against \<open>b1\<close>): the diff
  engine answers with index 0, all three old elements removed and all three new elements
  inserted.
\<close>

theorem reorder_scenario_is_full_replacement:
  "b1 \<noteq> b2 \<Longrightarrow> b1 \<noteq> b3 \<Longrightarrow>
   simpleDiffArray [b1, b2, b3] [b2, b3, b1] = \<lparr> index = 0, remove = 3, inserted = [b2, b3, b1] \<rparr>"
  by (simp add: simpleDiffArray_def)

text \<open>The amended claim C7 at the block ids of the scenario.\<close>

theorem reorder_scenario_is_full_replacement_witness:
  "''b1'' \<noteq> ''b2'' \<and> ''b1'' \<noteq> ''b3'' \<and>
   simpleDiffArray [''b1'', ''b2'', ''b3''] [''b2'', ''b3'', ''b1'']
     = \<lparr> index = 0, remove = 3, inserted = [''b2'', ''b3'', ''b1''] \<rparr>"
  using reorder_scenario_is_full_replacement [of "''b1''" "''b2''" "''b3''"] by simp

text \<open>
  Claim C7 as the spec states it: the answer would be index 0, one element removed and
  \<open>[b2, b3]\<close> inserted. The diff engine does not answer that.
\<close>

theorem reorder_scenario_counterexample:
  "simpleDiffArray [''b1'', ''b2'', ''b3''] [''b2'', ''b3'', ''b1'']
     \<noteq> \<lparr> index = 0, remove = 1, inserted = [''b2'', ''b3''] \<rparr>"
  by (simp add: simpleDiffArray_def)

section \<open>Properties of the byte array encoding\<close>

declare numberToString.simps [simp del]

lemma digit_cases: "d < 10 \<Longrightarrow> d \<in> {0, 1, 2, 3, 4, 5, 6, 7, 8, 9::nat}"
  by auto

lemma digitValue_digitChar: "d < 10 \<Longrightarrow> digitValue (digitChar d) = Some d"
  using digit_cases [of d] by (auto simp: digitChar_def digitValue_def)

lemma digitChar_not_comma: "d < 10 \<Longrightarrow> digitChar d \<noteq> CHR '',''"
  using digit_cases [of d] by (auto simp: digitChar_def)

lemma digitsValue_snoc:
  "digitsValue acc (xs @ [c]) =
     (case digitsValue acc xs of
        None \<Rightarrow> None
      | Some v \<Rightarrow> (case digitValue c of None \<Rightarrow> None | Some d \<Rightarrow> Some (10 * v + d)))"
  by (induction xs arbitrary: acc) (auto split: option.splits)

lemma digitsValue_numberToString: "digitsValue 0 (numberToString n) = Some n"
proof (induction n rule: numberToString.induct)
  case (1 n)
  show ?case
  proof (cases "n < 10")
    case True
    then show ?thesis
      by (subst numberToString.simps) (simp add: digitValue_digitChar)
  next
    case False
    with 1 have "digitsValue 0 (numberToString (n div 10)) = Some (n div 10)" by simp
    then show ?thesis
      using False
      by (subst numberToString.simps)
         (simp add: digitsValue_snoc digitValue_digitChar)
  qed
qed

lemma numberToString_no_comma: "CHR '','' \<notin> set (numberToString n)"
proof (induction n rule: numberToString.induct)
  case (1 n)
  show ?case
  proof (cases "n < 10")
    case True
    then show ?thesis
      using digitChar_not_comma [of n] by (subst numberToString.simps) auto
  next
    case False
    with 1 have "CHR '','' \<notin> set (numberToString (n div 10))" by simp
    then show ?thesis
      using False digitChar_not_comma [of "n mod 10"]
      by (subst numberToString.simps) auto
  qed
qed

lemma split_no_sep: "sep \<notin> set w \<Longrightarrow> split sep w = [w]"
  by (induction w) auto

lemma split_append: "sep \<notin> set w \<Longrightarrow> split sep (w @ sep # rest) = w # split sep rest"
  by (induction w) auto

lemma split_join:
  "ws \<noteq> [] \<Longrightarrow> \<forall>w \<in> set ws. sep \<notin> set w \<Longrightarrow> split sep (join sep ws) = ws"
  by (induction sep ws rule: join.induct) (auto simp: split_no_sep split_append)

lemma stringToUint8_numberToString: "stringToUint8 (numberToString (unat b)) = b"
  by (simp add: stringToUint8_def digitsValue_numberToString)

lemma decodeArray_encodeArray_nonempty:
  assumes "bs \<noteq> []"
  shows "decodeArray (encodeArray bs) = bs"
proof -
  let ?ws = "map (\<lambda>b. numberToString (unat b)) bs"
  have "split CHR '','' (join CHR '','' ?ws) = ?ws"
    using assms by (intro split_join) (auto simp: numberToString_no_comma)
  then show ?thesis
    by (simp add: decodeArray_def encodeArray_def o_def stringToUint8_numberToString map_idI)
qed

text \<open>
  Claim C10. Decoding what \<^verbatim>\<open>encodeArray\<close> wrote gives back every byte sequence that is
  not empty. The empty sequence is written as the empty string, and the empty string is
  decoded as the single byte 0.
\<close>

theorem decodeArray_encodeArray:
  "(bs \<noteq> [] \<longrightarrow> decodeArray (encodeArray bs) = bs) \<and>
   encodeArray [] = [] \<and> decodeArray (encodeArray []) = [0]"
proof -
  have "decodeArray (encodeArray bs) = bs" if "bs \<noteq> []"
    using that by (rule decodeArray_encodeArray_nonempty)
  moreover have "encodeArray [] = []" by (simp add: encodeArray_def)
  moreover have "decodeArray [] = [0]" by (simp add: decodeArray_def stringToUint8_def)
  ultimately show ?thesis by simp
qed

text \<open>Claim C10 at the bytes 0, 7 and 255, written as \<open>0,7,255\<close>.\<close>

theorem decodeArray_encodeArray_witness:
  "[0, 7, 255] \<noteq> ([] :: byte list) \<and> decodeArray (encodeArray [0, 7, 255]) = [0, 7, 255] \<and>
   encodeArray [0, 7, 255] = ''0,7,255''"
proof -
  have "encodeArray [0, 7, 255] = ''0,7,255''" by code_simp
  then show ?thesis using decodeArray_encodeArray [of "[0, 7, 255]"] by simp
qed

section \<open>Properties of the tree codec\<close>

lemma orderOf_simps [simp]:
  "orderOf \<lparr> order = Some m, byClientId = c \<rparr> p = m p"
  "orderOf \<lparr> order = None, byClientId = c \<rparr> p = None"
  by (simp_all add: orderOf_def)

lemma contentOf_simps [simp]:
  "contentOf \<lparr> order = m, byClientId = Some c \<rparr> i = c i"
  "contentOf \<lparr> order = m, byClientId = None \<rparr> i = None"
  by (simp_all add: contentOf_def)

lemma slice_empty [simp]: "slice xs i 0 = []" "slice [] i n = []"
  by (simp_all add: slice_def)

lemma array_noop [simp]:
  "array_delete xs i 0 = xs" "array_insert xs i [] = xs" "array_insert [] i ys = ys"
  by (simp_all add: array_delete_def array_insert_def)

lemma reorder_same:
  assumes "orderOf d p = Some ids" and "byClientId d \<noteq> None"
  shows "reorder (d, j) ids p
           = (d, j @ [OrderDelete p (length ids) 0, OrderInsert p (length ids) []])"
proof -
  from assms obtain m c where m: "order d = Some m" "m p = Some ids" and c: "byClientId d = Some c"
    by (auto simp: orderOf_def split: option.splits)
  have "m(p \<mapsto> ids) = m" using m by (simp add: map_upd_triv)
  moreover have "d = \<lparr> order = Some m, byClientId = Some c \<rparr>" using m c by simp
  ultimately show ?thesis
    using m c by (simp add: reorder_def simpleDiffArray_same)
qed

lemma writeBlock_same:
  "contentOf d c = Some (c, a) \<Longrightarrow> writeBlock (d, j) (c, a) = (d, j)"
  by (auto simp: writeBlock_def contentOf_def split: option.splits)

declare updateBlocksDoc.simps [simp del]

lemma encode_again:
  "represents (fst t) p bs \<longrightarrow>
     (\<exists>js. updateBlocksDoc t bs p = (fst t, snd t @ js) \<and> list_all zeroLength js)"
  "holdsEach (fst t) bs' \<longrightarrow>
     (\<exists>js. updateEach t bs' = (fst t, snd t @ js) \<and> list_all zeroLength js)"
proof (induction t bs p and t bs' rule: updateBlocksDoc_updateEach.induct)
  case (1 t blocks parent)
  show ?case
  proof
    assume r: "represents (fst t) parent blocks"
    obtain d j where t: "t = (d, j)" by (cases t)
    from r t have ro: "reorder (d, j) (map clientId blocks) parent
        = (d, j @ [OrderDelete parent (length blocks) 0, OrderInsert parent (length blocks) []])"
      using reorder_same [of d parent "map clientId blocks" j] by simp
    have "holdsEach (fst (reorder t (map clientId blocks) parent)) blocks"
      using r by (simp add: t ro)
    with 1 obtain js where
      "updateEach (reorder t (map clientId blocks) parent) blocks
         = (fst (reorder t (map clientId blocks) parent),
            snd (reorder t (map clientId blocks) parent) @ js)" "list_all zeroLength js"
      by blast
    then show "\<exists>js. updateBlocksDoc t blocks parent = (fst t, snd t @ js) \<and> list_all zeroLength js"
      by (auto simp add: t ro updateBlocksDoc.simps)
  qed
next
  case (2 t)
  show ?case by (auto intro: exI [of _ "[]"])
next
  case (3 t c a inner bs)
  show ?case
  proof
    assume h: "holdsEach (fst t) (Block c a inner # bs)"
    obtain d j where t: "t = (d, j)" by (cases t)
    from h t have w: "writeBlock t (c, a) = t" by (simp add: writeBlock_same)
    from h have "represents (fst (writeBlock t (c, a))) c inner" by (simp add: w)
    with 3(1) obtain js1 where
      1: "updateBlocksDoc (writeBlock t (c, a)) inner c = (fst t, snd t @ js1)" "list_all zeroLength js1"
      by (auto simp: w)
    from h have "holdsEach (fst (updateBlocksDoc (writeBlock t (c, a)) inner c)) bs"
      by (simp add: 1)
    with 3(2) obtain js2 where
      2: "updateEach (updateBlocksDoc (writeBlock t (c, a)) inner c) bs = (fst t, (snd t @ js1) @ js2)"
         "list_all zeroLength js2"
      by (auto simp: 1)
    show "\<exists>js. updateEach t (Block c a inner # bs) = (fst t, snd t @ js) \<and> list_all zeroLength js"
      using 1 2 by (intro exI [of _ "js1 @ js2"]) simp
  qed
qed


lemma decode_represented:
  "\<forall>n. represents d p bs \<longrightarrow> treeDepth bs < n \<longrightarrow>
        blocksDocToArray n (Some d) p = Inr (map asDecoded bs)"
  "\<forall>n. holdsEach d bs' \<longrightarrow> byClientId d \<noteq> None \<longrightarrow> treeDepth bs' \<le> n \<longrightarrow>
        decodeEach n d (map clientId bs') = Inr (map asDecoded bs')"
proof (induction d p bs and d bs' rule: represents_holdsEach.induct)
  case (1 d p bs)
  show ?case
  proof (intro allI impI)
    fix n assume r: "represents d p bs" and n: "treeDepth bs < n"
    from n obtain k where k: "n = Suc k" by (cases n) auto
    from r obtain m where m: "order d = Some m" "m p = Some (map clientId bs)"
      by (auto simp: orderOf_def split: option.splits)
    from r n k 1 have "decodeEach k d (map clientId bs) = Inr (map asDecoded bs)" by simp
    then show "blocksDocToArray n (Some d) p = Inr (map asDecoded bs)"
      by (simp add: k m)
  qed
next
  case (2 d)
  show ?case by simp
next
  case (3 d c a inner bs)
  show ?case
  proof (intro allI impI)
    fix n
    assume h: "holdsEach d (Block c a inner # bs)" and b: "byClientId d \<noteq> None"
      and n: "treeDepth (Block c a inner # bs) \<le> n"
    from b obtain cm where cm: "byClientId d = Some cm" by auto
    from h cm have c: "cm c = Some (c, a)" by (simp add: contentOf_def)
    from h n 3(1) have i: "blocksDocToArray n (Some d) c = Inr (map asDecoded inner)" by simp
    from h n b 3(2) have r: "decodeEach n d (map clientId bs) = Inr (map asDecoded bs)" by simp
    show "decodeEach n d (map clientId (Block c a inner # bs)) = Inr (map asDecoded (Block c a inner # bs))"
      by (simp add: cm c i r)
  qed
qed

lemma reorder_fresh:
  assumes "freshAt d p"
  shows "fst (reorder (d, j) ids p)
           = \<lparr> order = Some ((case order d of None \<Rightarrow> Map.empty | Some m \<Rightarrow> m)(p \<mapsto> ids)),
               byClientId = Some (case byClientId d of None \<Rightarrow> Map.empty | Some c \<Rightarrow> c) \<rparr>"
  using assms
  by (auto simp: freshAt_def orderOf_def reorder_def simpleDiffArray_Nil
           split: option.splits prod.splits)

lemma reorder_fresh_reads:
  assumes "freshAt d p"
  shows "orderOf (fst (reorder (d, j) ids p)) k = (if k = p then Some ids else orderOf d k)"
    and "contentOf (fst (reorder (d, j) ids p)) i = contentOf d i"
    and "byClientId (fst (reorder (d, j) ids p)) \<noteq> None"
  by (auto simp: reorder_fresh [OF assms] orderOf_def contentOf_def split: option.splits)

lemma writeBlock_reads:
  assumes "byClientId d \<noteq> None"
  shows "orderOf (fst (writeBlock (d, j) (c, a))) k = orderOf d k"
    and "contentOf (fst (writeBlock (d, j) (c, a))) i = (if i = c then Some (c, a) else contentOf d i)"
    and "byClientId (fst (writeBlock (d, j) (c, a))) \<noteq> None"
  using assms
  by (auto simp: writeBlock_def orderOf_def contentOf_def split: option.splits)

lemma represents_frame:
  "represents d p bs \<longrightarrow> (\<forall>k \<in> set (p # blockIds bs). orderOf d' k = orderOf d k) \<longrightarrow>
     (\<forall>i \<in> set (blockIds bs). contentOf d' i = contentOf d i) \<longrightarrow> byClientId d' \<noteq> None \<longrightarrow>
     represents d' p bs"
  "holdsEach d bs' \<longrightarrow> (\<forall>k \<in> set (blockIds bs'). orderOf d' k = orderOf d k) \<longrightarrow>
     (\<forall>i \<in> set (blockIds bs'). contentOf d' i = contentOf d i) \<longrightarrow> byClientId d' \<noteq> None \<longrightarrow>
     holdsEach d' bs'"
  by (induction d p bs and d bs' rule: represents_holdsEach.induct) auto


lemma encode_fresh:
  "distinct (p # blockIds bs) \<and> (\<forall>k \<in> set (p # blockIds bs). freshAt (fst t) k) \<longrightarrow>
     represents (fst (updateBlocksDoc t bs p)) p bs \<and>
     (\<forall>k. k \<notin> set (p # blockIds bs) \<longrightarrow>
          orderOf (fst (updateBlocksDoc t bs p)) k = orderOf (fst t) k) \<and>
     (\<forall>i. i \<notin> set (blockIds bs) \<longrightarrow>
          contentOf (fst (updateBlocksDoc t bs p)) i = contentOf (fst t) i)"
  "distinct (blockIds bs') \<and> (\<forall>k \<in> set (blockIds bs'). freshAt (fst t) k) \<and>
     byClientId (fst t) \<noteq> None \<longrightarrow>
     holdsEach (fst (updateEach t bs')) bs' \<and> byClientId (fst (updateEach t bs')) \<noteq> None \<and>
     (\<forall>k. k \<notin> set (blockIds bs') \<longrightarrow> orderOf (fst (updateEach t bs')) k = orderOf (fst t) k) \<and>
     (\<forall>i. i \<notin> set (blockIds bs') \<longrightarrow> contentOf (fst (updateEach t bs')) i = contentOf (fst t) i)"
proof (induction t bs p and t bs' rule: updateBlocksDoc_updateEach.induct)
  case (1 t blocks parent)
  show ?case
  proof (intro impI)
    assume a: "distinct (parent # blockIds blocks) \<and>
               (\<forall>k \<in> set (parent # blockIds blocks). freshAt (fst t) k)"
    obtain d j where t: "t = (d, j)" by (cases t)
    define t1 where "t1 = reorder t (map clientId blocks) parent"
    from a t have fp: "freshAt d parent" by simp
    have o1: "\<And>k. orderOf (fst t1) k = (if k = parent then Some (map clientId blocks) else orderOf d k)"
      and c1: "\<And>i. contentOf (fst t1) i = contentOf d i"
      and b1: "byClientId (fst t1) \<noteq> None"
      unfolding t1_def t using reorder_fresh_reads [OF fp] by blast+
    have pre: "distinct (blockIds blocks) \<and> (\<forall>k \<in> set (blockIds blocks). freshAt (fst t1) k) \<and>
               byClientId (fst t1) \<noteq> None"
      using a t b1 by (auto simp: freshAt_def o1)
    from 1 [folded t1_def] pre have
      h: "holdsEach (fst (updateEach t1 blocks)) blocks"
      and b: "byClientId (fst (updateEach t1 blocks)) \<noteq> None"
      and o: "\<And>k. k \<notin> set (blockIds blocks) \<Longrightarrow> orderOf (fst (updateEach t1 blocks)) k = orderOf (fst t1) k"
      and c: "\<And>i. i \<notin> set (blockIds blocks) \<Longrightarrow> contentOf (fst (updateEach t1 blocks)) i = contentOf (fst t1) i"
      by blast+
    have u: "updateBlocksDoc t blocks parent = updateEach t1 blocks"
      by (simp add: updateBlocksDoc.simps t1_def)
    from a have "parent \<notin> set (blockIds blocks)" by simp
    then have "orderOf (fst (updateEach t1 blocks)) parent = Some (map clientId blocks)"
      by (simp add: o o1)
    with h b have "represents (fst (updateBlocksDoc t blocks parent)) parent blocks"
      by (simp add: u)
    moreover have "\<forall>k. k \<notin> set (parent # blockIds blocks) \<longrightarrow>
          orderOf (fst (updateBlocksDoc t blocks parent)) k = orderOf (fst t) k"
      unfolding u by (simp add: o o1 t)
    moreover have "\<forall>i. i \<notin> set (blockIds blocks) \<longrightarrow>
          contentOf (fst (updateBlocksDoc t blocks parent)) i = contentOf (fst t) i"
      unfolding u by (simp add: c c1 t)
    ultimately show "represents (fst (updateBlocksDoc t blocks parent)) parent blocks \<and>
     (\<forall>k. k \<notin> set (parent # blockIds blocks) \<longrightarrow>
          orderOf (fst (updateBlocksDoc t blocks parent)) k = orderOf (fst t) k) \<and>
     (\<forall>i. i \<notin> set (blockIds blocks) \<longrightarrow>
          contentOf (fst (updateBlocksDoc t blocks parent)) i = contentOf (fst t) i)"
      by blast
  qed
next
  case (2 t)
  show ?case by simp
next
  case (3 t c a inner bs)
  show ?case
  proof (intro impI)
    assume asm: "distinct (blockIds (Block c a inner # bs)) \<and>
                 (\<forall>k \<in> set (blockIds (Block c a inner # bs)). freshAt (fst t) k) \<and>
                 byClientId (fst t) \<noteq> None"
    obtain d j where t: "t = (d, j)" by (cases t)
    define t1 where "t1 = writeBlock t (c, a)"
    define t2 where "t2 = updateBlocksDoc t1 inner c"
    define t3 where "t3 = updateEach t2 bs"
    from asm t have bd: "byClientId d \<noteq> None" by simp
    have o1: "\<And>k. orderOf (fst t1) k = orderOf d k"
      and c1: "\<And>i. contentOf (fst t1) i = (if i = c then Some (c, a) else contentOf d i)"
      and b1: "byClientId (fst t1) \<noteq> None"
      unfolding t1_def t using writeBlock_reads [OF bd] by blast+
    have pre1: "distinct (c # blockIds inner) \<and> (\<forall>k \<in> set (c # blockIds inner). freshAt (fst t1) k)"
      using asm t by (auto simp: freshAt_def o1)
    from 3(1) [folded t1_def] pre1 have
      r2: "represents (fst t2) c inner"
      and o2: "\<And>k. k \<notin> set (c # blockIds inner) \<Longrightarrow> orderOf (fst t2) k = orderOf (fst t1) k"
      and c2: "\<And>i. i \<notin> set (blockIds inner) \<Longrightarrow> contentOf (fst t2) i = contentOf (fst t1) i"
      unfolding t2_def by blast+
    from r2 have b2: "byClientId (fst t2) \<noteq> None" by simp
    have "freshAt (fst t2) k" if k: "k \<in> set (blockIds bs)" for k
    proof -
      from k asm have "k \<notin> set (c # blockIds inner)" by auto
      then have "orderOf (fst t2) k = orderOf d k" by (simp add: o2 o1)
      moreover from k asm t have "freshAt d k" by simp
      ultimately show ?thesis by (simp add: freshAt_def)
    qed
    with asm b2 have pre2: "distinct (blockIds bs) \<and> (\<forall>k \<in> set (blockIds bs). freshAt (fst t2) k) \<and>
                byClientId (fst t2) \<noteq> None"
      by simp
    from 3(2) [folded t1_def, folded t2_def] pre2 have
      h3: "holdsEach (fst t3) bs"
      and b3: "byClientId (fst t3) \<noteq> None"
      and o3: "\<And>k. k \<notin> set (blockIds bs) \<Longrightarrow> orderOf (fst t3) k = orderOf (fst t2) k"
      and c3: "\<And>i. i \<notin> set (blockIds bs) \<Longrightarrow> contentOf (fst t3) i = contentOf (fst t2) i"
      unfolding t3_def by blast+
    have u: "updateEach t (Block c a inner # bs) = t3"
      by (simp add: t3_def t2_def t1_def)
    from asm have disj: "c \<notin> set (blockIds inner)" "c \<notin> set (blockIds bs)"
      "set (blockIds inner) \<inter> set (blockIds bs) = {}" by auto
    have cc: "contentOf (fst t3) c = Some (c, a)"
      using disj by (simp add: c3 c2 c1)
    have f1: "\<forall>k \<in> set (c # blockIds inner). orderOf (fst t3) k = orderOf (fst t2) k"
      using disj o3 by auto
    have f2: "\<forall>i \<in> set (blockIds inner). contentOf (fst t3) i = contentOf (fst t2) i"
      using disj c3 by auto
    have "represents (fst t3) c inner"
      using represents_frame(1) [of "fst t2" c inner "fst t3"] r2 f1 f2 b3 by blast
    with cc h3 have "holdsEach (fst t3) (Block c a inner # bs)" by simp
    moreover have "\<forall>k. k \<notin> set (blockIds (Block c a inner # bs)) \<longrightarrow> orderOf (fst t3) k = orderOf (fst t) k"
      by (simp add: o3 o2 o1 t)
    moreover have "\<forall>i. i \<notin> set (blockIds (Block c a inner # bs)) \<longrightarrow> contentOf (fst t3) i = contentOf (fst t) i"
      by (simp add: c3 c2 c1 t)
    ultimately show "holdsEach (fst (updateEach t (Block c a inner # bs))) (Block c a inner # bs) \<and>
       byClientId (fst (updateEach t (Block c a inner # bs))) \<noteq> None \<and>
       (\<forall>k. k \<notin> set (blockIds (Block c a inner # bs)) \<longrightarrow>
            orderOf (fst (updateEach t (Block c a inner # bs))) k = orderOf (fst t) k) \<and>
       (\<forall>i. i \<notin> set (blockIds (Block c a inner # bs)) \<longrightarrow>
            contentOf (fst (updateEach t (Block c a inner # bs))) i = contentOf (fst t) i)"
      using b3 unfolding u by blast
  qed
qed

subsection \<open>Encoding into any store\<close>

lemma deleteRemoved_reads:
  "fst (deleteRemoved xs ins (c, j)) i = None \<or> fst (deleteRemoved xs ins (c, j)) i = c i"
proof (induction xs arbitrary: c j)
  case Nil
  show ?case by simp
next
  case (Cons x xs)
  show ?case
  proof (cases "x \<notin> set ins")
    case True
    then have e: "deleteRemoved (x # xs) ins (c, j)
        = deleteRemoved xs ins (c(x := None), j @ [ContentDelete x (c x \<noteq> None)])"
      by simp
    have "(c(x := None)) i = None \<or> (c(x := None)) i = c i" by simp
    with Cons [of "c(x := None)" "j @ [ContentDelete x (c x \<noteq> None)]"]
    show ?thesis unfolding e by metis
  next
    case False
    with Cons [of c j] show ?thesis by simp
  qed
qed

lemma reorder_reads:
  "orderOf (fst (reorder (d, j) ids p)) k = (if k = p then Some ids else orderOf d k)"
  "contentOf (fst (reorder (d, j) ids p)) i = None \<or>
   contentOf (fst (reorder (d, j) ids p)) i = contentOf d i"
  "byClientId (fst (reorder (d, j) ids p)) \<noteq> None"
proof -
  define m where "m = (case order d of None \<Rightarrow> Map.empty | Some m \<Rightarrow> m)"
  define cur where "cur = (case m p of None \<Rightarrow> [] | Some l \<Rightarrow> l)"
  define c where "c = (case byClientId d of None \<Rightarrow> Map.empty | Some c \<Rightarrow> c)"
  define df where "df = simpleDiffArray cur ids"
  define j1 where "j1 = (case order d of None \<Rightarrow> j @ [OrderMapCreate] | Some m \<Rightarrow> j)"
  define j2 where "j2 = (case m p of None \<Rightarrow> j1 @ [OrderListCreate p] | Some l \<Rightarrow> j1)"
  define j3 where "j3 = (case byClientId d of None \<Rightarrow> j2 @ [ContentMapCreate] | Some c \<Rightarrow> j2)"
  have "fst (reorder (d, j) ids p) =
      \<lparr> order = Some (m(p \<mapsto> array_insert (array_delete cur (index df) (remove df)) (index df) (inserted df))),
        byClientId = Some (fst (deleteRemoved (slice cur (index df) (remove df)) (inserted df) (c, j3))) \<rparr>"
    unfolding m_def cur_def c_def df_def j1_def j2_def j3_def
    by (simp add: reorder_def Let_def case_prod_beta split: option.splits)
  then have r: "fst (reorder (d, j) ids p) =
      \<lparr> order = Some (m(p \<mapsto> ids)),
        byClientId = Some (fst (deleteRemoved (slice cur (index df) (remove df)) (inserted df) (c, j3))) \<rparr>"
    unfolding df_def by (simp add: simpleDiffArray_applies)
  show "orderOf (fst (reorder (d, j) ids p)) k = (if k = p then Some ids else orderOf d k)"
    by (simp add: r m_def orderOf_def split: option.splits)
  have "contentOf d i = c i" by (simp add: c_def contentOf_def split: option.splits)
  then show "contentOf (fst (reorder (d, j) ids p)) i = None \<or>
        contentOf (fst (reorder (d, j) ids p)) i = contentOf d i"
    using deleteRemoved_reads [of "slice cur (index df) (remove df)" "inserted df" c j3 i]
    by (simp add: r)
  show "byClientId (fst (reorder (d, j) ids p)) \<noteq> None" by (simp add: r)
qed

lemma nearly_frame:
  "nearlyRepresents d p bs \<longrightarrow> (\<forall>k \<in> set (p # blockIds bs). orderOf d' k = orderOf d k) \<longrightarrow>
     (\<forall>i \<in> set (blockIds bs). contentOf d' i = None \<or> contentOf d' i = contentOf d i) \<longrightarrow>
     byClientId d' \<noteq> None \<longrightarrow> nearlyRepresents d' p bs"
  "nearlyEach d bs' \<longrightarrow> (\<forall>k \<in> set (blockIds bs'). orderOf d' k = orderOf d k) \<longrightarrow>
     (\<forall>i \<in> set (blockIds bs'). contentOf d' i = None \<or> contentOf d' i = contentOf d i) \<longrightarrow>
     byClientId d' \<noteq> None \<longrightarrow> nearlyEach d' bs'"
  by (induction d p bs and d bs' rule: nearlyRepresents_nearlyEach.induct) auto

lemma nearly_kept:
  "nearlyRepresents d p bs \<longrightarrow> (\<forall>i \<in> set (blockIds bs). contentOf d i \<noteq> None) \<longrightarrow>
     represents d p bs"
  "nearlyEach d bs' \<longrightarrow> (\<forall>i \<in> set (blockIds bs'). contentOf d i \<noteq> None) \<longrightarrow> holdsEach d bs'"
  by (induction d p bs and d bs' rule: nearlyRepresents_nearlyEach.induct) auto

lemma encode_any:
  "distinct (p # blockIds bs) \<longrightarrow>
     nearlyRepresents (fst (updateBlocksDoc t bs p)) p bs \<and>
     (\<forall>k. k \<notin> set (p # blockIds bs) \<longrightarrow>
          orderOf (fst (updateBlocksDoc t bs p)) k = orderOf (fst t) k) \<and>
     (\<forall>i. i \<notin> set (blockIds bs) \<longrightarrow>
          contentOf (fst (updateBlocksDoc t bs p)) i = None \<or>
          contentOf (fst (updateBlocksDoc t bs p)) i = contentOf (fst t) i)"
  "distinct (blockIds bs') \<and> byClientId (fst t) \<noteq> None \<longrightarrow>
     nearlyEach (fst (updateEach t bs')) bs' \<and> byClientId (fst (updateEach t bs')) \<noteq> None \<and>
     (\<forall>k. k \<notin> set (blockIds bs') \<longrightarrow> orderOf (fst (updateEach t bs')) k = orderOf (fst t) k) \<and>
     (\<forall>i. i \<notin> set (blockIds bs') \<longrightarrow>
          contentOf (fst (updateEach t bs')) i = None \<or>
          contentOf (fst (updateEach t bs')) i = contentOf (fst t) i)"
proof (induction t bs p and t bs' rule: updateBlocksDoc_updateEach.induct)
  case (1 t blocks parent)
  show ?case
  proof (intro impI)
    assume a: "distinct (parent # blockIds blocks)"
    obtain d j where t: "t = (d, j)" by (cases t)
    define t1 where "t1 = reorder t (map clientId blocks) parent"
    have o1: "\<And>k. orderOf (fst t1) k = (if k = parent then Some (map clientId blocks) else orderOf d k)"
      and c1: "\<And>i. contentOf (fst t1) i = None \<or> contentOf (fst t1) i = contentOf d i"
      and b1: "byClientId (fst t1) \<noteq> None"
      unfolding t1_def t by (rule reorder_reads)+
    from a b1 have pre: "distinct (blockIds blocks) \<and> byClientId (fst t1) \<noteq> None" by simp
    from 1 [folded t1_def] pre have
      h: "nearlyEach (fst (updateEach t1 blocks)) blocks"
      and b: "byClientId (fst (updateEach t1 blocks)) \<noteq> None"
      and o: "\<And>k. k \<notin> set (blockIds blocks) \<Longrightarrow> orderOf (fst (updateEach t1 blocks)) k = orderOf (fst t1) k"
      and c: "\<And>i. i \<notin> set (blockIds blocks) \<Longrightarrow>
                contentOf (fst (updateEach t1 blocks)) i = None \<or>
                contentOf (fst (updateEach t1 blocks)) i = contentOf (fst t1) i"
      by blast+
    have u: "updateBlocksDoc t blocks parent = updateEach t1 blocks"
      by (simp add: updateBlocksDoc.simps t1_def)
    from a have "parent \<notin> set (blockIds blocks)" by simp
    then have "orderOf (fst (updateEach t1 blocks)) parent = Some (map clientId blocks)"
      by (simp add: o o1)
    with h b have "nearlyRepresents (fst (updateBlocksDoc t blocks parent)) parent blocks"
      by (simp add: u)
    moreover have "\<forall>k. k \<notin> set (parent # blockIds blocks) \<longrightarrow>
          orderOf (fst (updateBlocksDoc t blocks parent)) k = orderOf (fst t) k"
      unfolding u by (simp add: o o1 t)
    moreover have "\<forall>i. i \<notin> set (blockIds blocks) \<longrightarrow>
          contentOf (fst (updateBlocksDoc t blocks parent)) i = None \<or>
          contentOf (fst (updateBlocksDoc t blocks parent)) i = contentOf (fst t) i"
      unfolding u using c c1 by (metis t fst_conv)
    ultimately show "nearlyRepresents (fst (updateBlocksDoc t blocks parent)) parent blocks \<and>
     (\<forall>k. k \<notin> set (parent # blockIds blocks) \<longrightarrow>
          orderOf (fst (updateBlocksDoc t blocks parent)) k = orderOf (fst t) k) \<and>
     (\<forall>i. i \<notin> set (blockIds blocks) \<longrightarrow>
          contentOf (fst (updateBlocksDoc t blocks parent)) i = None \<or>
          contentOf (fst (updateBlocksDoc t blocks parent)) i = contentOf (fst t) i)"
      by blast
  qed
next
  case (2 t)
  show ?case by simp
next
  case (3 t c a inner bs)
  show ?case
  proof (intro impI)
    assume asm: "distinct (blockIds (Block c a inner # bs)) \<and> byClientId (fst t) \<noteq> None"
    obtain d j where t: "t = (d, j)" by (cases t)
    define t1 where "t1 = writeBlock t (c, a)"
    define t2 where "t2 = updateBlocksDoc t1 inner c"
    define t3 where "t3 = updateEach t2 bs"
    from asm t have bd: "byClientId d \<noteq> None" by simp
    have o1: "\<And>k. orderOf (fst t1) k = orderOf d k"
      and c1: "\<And>i. contentOf (fst t1) i = (if i = c then Some (c, a) else contentOf d i)"
      and b1: "byClientId (fst t1) \<noteq> None"
      unfolding t1_def t using writeBlock_reads [OF bd] by blast+
    from asm have pre1: "distinct (c # blockIds inner)" by simp
    from 3(1) [folded t1_def] pre1 have
      r2: "nearlyRepresents (fst t2) c inner"
      and o2: "\<And>k. k \<notin> set (c # blockIds inner) \<Longrightarrow> orderOf (fst t2) k = orderOf (fst t1) k"
      and c2: "\<And>i. i \<notin> set (blockIds inner) \<Longrightarrow>
                 contentOf (fst t2) i = None \<or> contentOf (fst t2) i = contentOf (fst t1) i"
      unfolding t2_def by blast+
    from r2 have b2: "byClientId (fst t2) \<noteq> None" by simp
    with asm have pre2: "distinct (blockIds bs) \<and> byClientId (fst t2) \<noteq> None" by simp
    from 3(2) [folded t1_def, folded t2_def] pre2 have
      h3: "nearlyEach (fst t3) bs"
      and b3: "byClientId (fst t3) \<noteq> None"
      and o3: "\<And>k. k \<notin> set (blockIds bs) \<Longrightarrow> orderOf (fst t3) k = orderOf (fst t2) k"
      and c3: "\<And>i. i \<notin> set (blockIds bs) \<Longrightarrow>
                 contentOf (fst t3) i = None \<or> contentOf (fst t3) i = contentOf (fst t2) i"
      unfolding t3_def by blast+
    have u: "updateEach t (Block c a inner # bs) = t3"
      by (simp add: t3_def t2_def t1_def)
    from asm have disj: "c \<notin> set (blockIds inner)" "c \<notin> set (blockIds bs)"
      "set (blockIds inner) \<inter> set (blockIds bs) = {}" by auto
    have "contentOf (fst t2) c = None \<or> contentOf (fst t2) c = Some (c, a)"
      using c2 [OF disj(1)] by (simp add: c1)
    with c3 [OF disj(2)] have cc: "contentOf (fst t3) c = None \<or> contentOf (fst t3) c = Some (c, a)"
      by auto
    have f1: "\<forall>k \<in> set (c # blockIds inner). orderOf (fst t3) k = orderOf (fst t2) k"
      using disj o3 by auto
    have f2: "\<forall>i \<in> set (blockIds inner).
                contentOf (fst t3) i = None \<or> contentOf (fst t3) i = contentOf (fst t2) i"
      using disj c3 by auto
    have "nearlyRepresents (fst t3) c inner"
      using nearly_frame(1) [of "fst t2" c inner "fst t3"] r2 f1 f2 b3 by blast
    with cc h3 have "nearlyEach (fst t3) (Block c a inner # bs)" by simp
    moreover have "\<forall>k. k \<notin> set (blockIds (Block c a inner # bs)) \<longrightarrow> orderOf (fst t3) k = orderOf (fst t) k"
      by (simp add: o3 o2 o1 t)
    moreover have "\<forall>i. i \<notin> set (blockIds (Block c a inner # bs)) \<longrightarrow>
            contentOf (fst t3) i = None \<or> contentOf (fst t3) i = contentOf (fst t) i"
    proof (intro allI impI)
      fix i assume i: "i \<notin> set (blockIds (Block c a inner # bs))"
      then have n: "i \<noteq> c" "i \<notin> set (blockIds inner)" "i \<notin> set (blockIds bs)" by auto
      from c1 n(1) have "contentOf (fst t1) i = contentOf d i" by simp
      with c2 [OF n(2)] c3 [OF n(3)]
      show "contentOf (fst t3) i = None \<or> contentOf (fst t3) i = contentOf (fst t) i"
        by (auto simp: t)
    qed
    ultimately show "nearlyEach (fst (updateEach t (Block c a inner # bs))) (Block c a inner # bs) \<and>
       byClientId (fst (updateEach t (Block c a inner # bs))) \<noteq> None \<and>
       (\<forall>k. k \<notin> set (blockIds (Block c a inner # bs)) \<longrightarrow>
            orderOf (fst (updateEach t (Block c a inner # bs))) k = orderOf (fst t) k) \<and>
       (\<forall>i. i \<notin> set (blockIds (Block c a inner # bs)) \<longrightarrow>
            contentOf (fst (updateEach t (Block c a inner # bs))) i = None \<or>
            contentOf (fst (updateEach t (Block c a inner # bs))) i = contentOf (fst t) i)"
      using b3 unfolding u by blast
  qed
qed

lemma represented_content:
  "represents d p bs \<longrightarrow> (\<forall>i \<in> set (blockIds bs). contentOf d i \<noteq> None)"
  "holdsEach d bs' \<longrightarrow> (\<forall>i \<in> set (blockIds bs'). contentOf d i \<noteq> None)"
  by (induction d p bs and d bs' rule: represents_holdsEach.induct) auto

subsection \<open>Comments\<close>

lemma updateFields_reads:
  "fst (updateFields e isNew obj names (f, j)) n = (if n \<in> set names then obj n else f n)"
  by (induction names arbitrary: f j) (auto simp: strictNotEqual_def)

lemma updateFields_holds:
  "noNaN names obj \<Longrightarrow> holdsFields names (fst (updateFields e isNew obj names (f, j))) obj"
  by (simp add: holdsFields_def noNaN_def list_all_iff updateFields_reads strictNotEqual_def)

lemma updateFields_same:
  "holdsFields names f obj \<Longrightarrow> updateFields e False obj names (f, j) = (f, j)"
  by (induction names arbitrary: j) (auto simp: holdsFields_def)

lemma replies_frame:
  "k \<notin> set (map reply_id rs) \<Longrightarrow> fst (updateCommentRepliesDoc cid (rd, j) rs) k = rd k"
  by (induction rs arbitrary: rd j) (auto simp: Let_def split: prod.splits option.splits)

lemma holdsReplies_cong:
  "(\<And>r. r \<in> set rs \<Longrightarrow> rd' (reply_id r) = rd (reply_id r)) \<Longrightarrow>
   holdsReplies rd' rs = holdsReplies rd rs"
  by (simp add: holdsReplies_def list_all_iff)

lemma replies_hold:
  "distinct (map reply_id rs) \<Longrightarrow> list_all (\<lambda>r. noNaN replyFields (reply_fields r)) rs \<Longrightarrow>
   holdsReplies (fst (updateCommentRepliesDoc cid (rd, j) rs)) rs"
proof (induction rs arbitrary: rd j)
  case Nil
  show ?case by (simp add: holdsReplies_def)
next
  case (Cons r rs)
  define isNew where "isNew = (rd (reply_id r) = None)"
  define cur0 where "cur0 = (case rd (reply_id r) of None \<Rightarrow> Map.empty | Some cur \<Rightarrow> cur)"
  define j0 where "j0 = (case rd (reply_id r) of None \<Rightarrow> j @ [ReplyCreate cid (reply_id r)] | Some cur \<Rightarrow> j)"
  define u where "u = updateFields (ReplyFieldSet cid (reply_id r)) isNew (reply_fields r) replyFields (cur0, j0)"
  define rd1 where "rd1 = rd(reply_id r \<mapsto> fst u)"
  have step: "updateCommentRepliesDoc cid (rd, j) (r # rs) = updateCommentRepliesDoc cid (rd1, snd u) rs"
    by (simp add: Let_def rd1_def u_def cur0_def j0_def isNew_def split: prod.splits option.splits)
  from Cons.prems have d: "distinct (map reply_id rs)" and n: "reply_id r \<notin> set (map reply_id rs)"
    and nr: "noNaN replyFields (reply_fields r)"
    and nrs: "list_all (\<lambda>r. noNaN replyFields (reply_fields r)) rs"
    by simp_all
  have tail: "holdsReplies (fst (updateCommentRepliesDoc cid (rd1, snd u) rs)) rs"
    by (rule Cons.IH [OF d nrs])
  have "fst (updateCommentRepliesDoc cid (rd1, snd u) rs) (reply_id r) = Some (fst u)"
    by (simp add: rd1_def replies_frame [OF n])
  moreover have "holdsFields replyFields (fst u) (reply_fields r)"
    unfolding u_def by (rule updateFields_holds [OF nr])
  ultimately show ?case
    using tail unfolding step by (simp add: holdsReplies_def)
qed

lemma replies_same:
  "holdsReplies rd rs \<Longrightarrow> updateCommentRepliesDoc cid (rd, j) rs = (rd, j)"
proof (induction rs)
  case Nil
  show ?case by simp
next
  case (Cons r rs)
  from Cons.prems obtain cur where c: "rd (reply_id r) = Some cur"
    "holdsFields replyFields cur (reply_fields r)" and t: "holdsReplies rd rs"
    by (auto simp: holdsReplies_def split: option.splits)
  have "rd(reply_id r \<mapsto> cur) = rd" using c by (simp add: map_upd_triv)
  then show ?case
    using c Cons.IH [OF t] by (simp add: updateFields_same)
qed

lemma comments_frame:
  "k \<notin> set (map comment_id cs) \<Longrightarrow> fst (updateCommentsDoc (m, j) cs) k = m k"
  by (induction cs arbitrary: m j) (auto simp: Let_def split: prod.splits option.splits)

lemma comments_hold:
  "wellFormedComments cs \<Longrightarrow> holdsComments (fst (updateCommentsDoc (m, j) cs)) cs"
proof (induction cs arbitrary: m j)
  case Nil
  show ?case by (simp add: holdsComments_def)
next
  case (Cons c cs)
  define isNew where "isNew = (m (comment_id c) = None)"
  define cur0 where "cur0 = (case m (comment_id c) of
      None \<Rightarrow> \<lparr> field_values = Map.empty, replies_doc = Map.empty \<rparr> | Some cur \<Rightarrow> cur)"
  define j0 where "j0 = (case m (comment_id c) of None \<Rightarrow> j @ [CommentCreate (comment_id c)] | Some cur \<Rightarrow> j)"
  define u where "u = updateFields (CommentFieldSet (comment_id c)) isNew (comment_fields c)
                        commentFields (field_values cur0, j0)"
  define j1 where "j1 = (if isNew then snd u @ [RepliesCreate (comment_id c)] else snd u)"
  define v where "v = updateCommentRepliesDoc (comment_id c) (replies_doc cur0, j1) (replies c)"
  define m1 where "m1 = m(comment_id c \<mapsto> \<lparr> field_values = fst u, replies_doc = fst v \<rparr>)"
  have step: "updateCommentsDoc (m, j) (c # cs) = updateCommentsDoc (m1, snd v) cs"
    by (simp add: Let_def m1_def v_def j1_def u_def cur0_def j0_def isNew_def
             split: prod.splits option.splits)
  from Cons.prems have w: "wellFormedComments cs" and n: "comment_id c \<notin> set (map comment_id cs)"
    and dr: "distinct (map reply_id (replies c))"
    and nc: "noNaN commentFields (comment_fields c)"
    and nr: "list_all (\<lambda>r. noNaN replyFields (reply_fields r)) (replies c)"
    by (simp_all add: wellFormedComments_def)
  have tail: "holdsComments (fst (updateCommentsDoc (m1, snd v) cs)) cs"
    by (rule Cons.IH [OF w])
  have "fst (updateCommentsDoc (m1, snd v) cs) (comment_id c)
          = Some \<lparr> field_values = fst u, replies_doc = fst v \<rparr>"
    by (simp add: m1_def comments_frame [OF n])
  moreover have "holdsFields commentFields (fst u) (comment_fields c)"
    unfolding u_def by (rule updateFields_holds [OF nc])
  moreover have "holdsReplies (fst v) (replies c)"
    unfolding v_def by (rule replies_hold [OF dr nr])
  ultimately show ?case
    using tail unfolding step by (simp add: holdsComments_def)
qed

lemma comments_same:
  "holdsComments m cs \<Longrightarrow> updateCommentsDoc (m, j) cs = (m, j)"
proof (induction cs)
  case Nil
  show ?case by simp
next
  case (Cons c cs)
  from Cons.prems obtain cur where c: "m (comment_id c) = Some cur"
    "holdsFields commentFields (field_values cur) (comment_fields c)"
    "holdsReplies (replies_doc cur) (replies c)" and t: "holdsComments m cs"
    by (auto simp: holdsComments_def split: option.splits)
  obtain f rd where cur: "cur = \<lparr> field_values = f, replies_doc = rd \<rparr>" by (cases cur)
  have "m(comment_id c \<mapsto> cur) = m" using c by (simp add: map_upd_triv)
  then show ?case
    using c Cons.IH [OF t] by (simp add: updateFields_same replies_same cur)
qed

subsection \<open>The post as a whole\<close>

lemma updatePostDoc_explicit:
  fixes d :: "('a, 'v) post_doc" and j :: "('a, 'v) mutation list" and P :: "('a, 'v) post"
  defines "b0 \<equiv> (case blocks_entry d of None \<Rightarrow> \<lparr> order = None, byClientId = None \<rparr> | Some b \<Rightarrow> b)"
    and "c0 \<equiv> (case comments_entry d of None \<Rightarrow> Map.empty | Some c \<Rightarrow> c)"
    and "j1 \<equiv> (if title_entry d \<noteq> post_title P then j @ [TitleSet (post_title P)] else j)"
  defines "jb \<equiv> (case blocks_entry d of None \<Rightarrow> j1 @ [BlocksCreate] | Some b \<Rightarrow> j1)"
  defines "jc \<equiv> (case comments_entry d of
                      None \<Rightarrow> snd (updateBlocksDoc (b0, jb) (post_blocks P) []) @ [CommentsCreate]
                    | Some c \<Rightarrow> snd (updateBlocksDoc (b0, jb) (post_blocks P) []))"
  shows "fst (updatePostDoc (d, j) P) =
     \<lparr> title_entry = post_title P,
       blocks_entry = Some (fst (updateBlocksDoc (b0, jb) (post_blocks P) [])),
       comments_entry = Some (fst (updateCommentsDoc (c0, jc) (post_comments P))) \<rparr>"
  unfolding b0_def c0_def j1_def jb_def jc_def
  by (simp add: updatePostDoc_def Let_def case_prod_beta split: option.splits)

lemma updatePostDoc_result:
  fixes d :: "('a, 'v) post_doc" and j :: "('a, 'v) mutation list" and P :: "('a, 'v) post"
  shows "\<exists>(jb :: ('a, 'v) mutation list) (jc :: ('a, 'v) mutation list).
     fst (updatePostDoc (d, j) P) =
     \<lparr> title_entry = post_title P,
       blocks_entry = Some (fst (updateBlocksDoc
          (case blocks_entry d of None \<Rightarrow> \<lparr> order = None, byClientId = None \<rparr> | Some b \<Rightarrow> b, jb)
          (post_blocks P) [])),
       comments_entry = Some (fst (updateCommentsDoc
          (case comments_entry d of None \<Rightarrow> Map.empty | Some c \<Rightarrow> c, jc) (post_comments P))) \<rparr>"
  by (rule exI)+ (rule updatePostDoc_explicit)

lemma wellFormed_root: "wellFormed bs \<Longrightarrow> distinct ([] # blockIds bs)"
  by (simp add: wellFormed_def)

lemma freshFor_blocks:
  "freshFor d bs \<Longrightarrow>
   \<forall>k \<in> set ([] # blockIds bs).
      freshAt (case blocks_entry d of None \<Rightarrow> \<lparr> order = None, byClientId = None \<rparr> | Some b \<Rightarrow> b) k"
  by (auto simp: freshFor_def freshAt_def list_all_iff split: option.splits)

subsection \<open>Round trip\<close>

text \<open>
  Claim C1, as amended. For every post whose block tree is well formed (no id occurs twice
  anywhere in the tree, and no block has the empty id that keys the root's order list),
  encoding the post into the empty store with \<^verbatim>\<open>updatePostDoc\<close> and decoding the store with
  \<^verbatim>\<open>postDocToObject\<close> returns normally, whenever the call stack allows one nested call
  per level of the tree and one more, and yields the post's title (the empty string when
  the post has none) and a block tree equal to the post's.
\<close>

theorem decode_encode_roundtrip:
  fixes P :: "('a, 'v) post"
  assumes "wellFormed (post_blocks P)" and "treeDepth (post_blocks P) < depth"
  shows "postDocToObject depth (fst (updatePostDoc (emptyPostDoc, [] :: ('a, 'v) mutation list) P))
           = Inr \<lparr> title = (case post_title P of None \<Rightarrow> [] | Some t \<Rightarrow> t),
                   blocks = map asDecoded (post_blocks P) \<rparr>"
proof -
  obtain jb jc :: "('a, 'v) mutation list" where
    d1: "fst (updatePostDoc (emptyPostDoc, [] :: ('a, 'v) mutation list) P) =
     \<lparr> title_entry = post_title P,
       blocks_entry = Some (fst (updateBlocksDoc (\<lparr> order = None, byClientId = None \<rparr>, jb)
          (post_blocks P) [])),
       comments_entry = Some (fst (updateCommentsDoc (Map.empty, jc) (post_comments P))) \<rparr>"
    using updatePostDoc_result [of emptyPostDoc "[] :: ('a, 'v) mutation list" P]
    by (auto simp: emptyPostDoc_def)
  have "represents (fst (updateBlocksDoc (\<lparr> order = None, byClientId = None \<rparr>, jb) (post_blocks P) []))
          [] (post_blocks P)"
    using encode_fresh(1) [of "[]" "post_blocks P" "(\<lparr> order = None, byClientId = None \<rparr>, jb)"]
      wellFormed_root [OF assms(1)]
    by (simp add: freshAt_def)
  then have "blocksDocToArray depth
       (Some (fst (updateBlocksDoc (\<lparr> order = None, byClientId = None \<rparr>, jb) (post_blocks P) []))) []
         = Inr (map asDecoded (post_blocks P))"
    using decode_represented(1) assms(2) by blast
  then show ?thesis
    by (simp add: postDocToObject_def d1 split: option.splits)
qed

text \<open>The amended claim C1 at a post with a nested block and a second top-level block.\<close>

theorem decode_encode_roundtrip_witness:
  "wellFormed [Block ''a'' (1::nat) [Block ''x'' 5 []], Block ''b'' 2 []] \<and>
   treeDepth [Block ''a'' (1::nat) [Block ''x'' 5 []], Block ''b'' 2 []] < 3 \<and>
   postDocToObject 3
     (fst (updatePostDoc (emptyPostDoc, [] :: (nat, nat) mutation list)
        \<lparr> post_title = Some ''t'',
          post_blocks = [Block ''a'' (1::nat) [Block ''x'' 5 []], Block ''b'' 2 []],
          post_comments = [] \<rparr>))
     = Inr \<lparr> title = ''t'',
             blocks = [Decoded (Some (''a'', 1)) [Decoded (Some (''x'', 5)) []],
                       Decoded (Some (''b'', 2)) []] \<rparr>"
  using decode_encode_roundtrip [of
     "\<lparr> post_title = Some ''t'',
        post_blocks = [Block ''a'' (1::nat) [Block ''x'' 5 []], Block ''b'' 2 []],
        post_comments = ([] :: nat comment list) \<rparr>" 3]
  by (simp add: wellFormed_def)

text \<open>
  Claim C1 as the spec states it asks only for ids that are unique in each order list. The
  tree below has the id \<open>b\<close> once under \<open>a\<close> and once at the top, with different
  attributes: each order list is free of repetitions, and the decoded tree shows the
  attributes written last at both places.
\<close>

theorem roundtrip_counterexample:
  "siblingsDistinct [Block ''a'' (1::nat) [Block ''b'' 2 []], Block ''b'' 3 []] \<and>
   postDocToObject 3
     (fst (updatePostDoc (emptyPostDoc, [] :: (nat, nat) mutation list)
        \<lparr> post_title = Some [],
          post_blocks = [Block ''a'' (1::nat) [Block ''b'' 2 []], Block ''b'' 3 []],
          post_comments = [] \<rparr>))
     = Inr \<lparr> title = [],
             blocks = [Decoded (Some (''a'', 1)) [Decoded (Some (''b'', 3)) []],
                       Decoded (Some (''b'', 3)) []] \<rparr> \<and>
   [Decoded (Some (''a'', 1)) [Decoded (Some (''b'', 3)) []], Decoded (Some (''b'', 3)) []]
     \<noteq> map asDecoded [Block ''a'' (1::nat) [Block ''b'' 2 []], Block ''b'' 3 []]"
  by code_simp

text \<open>
  The empty id is excluded because it is the key of the root's order list: encoding the
  inner blocks of a block with the empty id, of which there are none, empties the root's
  order list again.
\<close>

lemma block_with_empty_id_is_lost:
  "siblingsDistinct [Block [] (1::nat) []] \<and>
   postDocToObject 3
     (fst (updatePostDoc (emptyPostDoc, [] :: (nat, nat) mutation list)
        \<lparr> post_title = Some [], post_blocks = [Block [] (1::nat) []], post_comments = [] \<rparr>))
     = Inr \<lparr> title = [], blocks = [] \<rparr>"
  by code_simp

subsection \<open>Write suppression\<close>

text \<open>
  Claim C6, as amended. Take a post whose block tree is well formed and whose comments are
  well formed (comment ids differ, reply ids differ within each comment, and no field the
  codec writes is not-a-number), and any store. If \<^verbatim>\<open>updatePostDoc\<close>, encoding the post into
  that store, has left every block of the tree with a content entry, then encoding the same
  post again leaves the store as it is, and the only calls it makes on the replicated
  types are list deletions of length zero and list insertions of no elements: no title,
  block content, comment field or reply field is set, nothing is created and nothing is
  deleted. (The first encoding leaves a block without content only when it deletes the
  content of a block that has moved to a parent visited earlier; what the second encoding
  does then is not part of this statement.)
\<close>

theorem reencode_writes_nothing:
  fixes P :: "('a, 'v) post" and j0 :: "('a, 'v) mutation list"
  assumes "wellFormed (post_blocks P)" and "wellFormedComments (post_comments P)"
    and "contentKept (fst (updatePostDoc (d0, j0) P)) (post_blocks P)"
  shows "fst (updatePostDoc (fst (updatePostDoc (d0, j0) P), [] :: ('a, 'v) mutation list) P)
           = fst (updatePostDoc (d0, j0) P)
         \<and> list_all zeroLength
               (snd (updatePostDoc (fst (updatePostDoc (d0, j0) P), [] :: ('a, 'v) mutation list) P))"
proof -
  define b0 where "b0 = (case blocks_entry d0 of None \<Rightarrow> \<lparr> order = None, byClientId = None \<rparr> | Some b \<Rightarrow> b)"
  define c0 where "c0 = (case comments_entry d0 of None \<Rightarrow> Map.empty | Some c \<Rightarrow> c)"
  obtain jb jc :: "('a, 'v) mutation list" where
    d1: "fst (updatePostDoc (d0, j0) P) =
     \<lparr> title_entry = post_title P,
       blocks_entry = Some (fst (updateBlocksDoc (b0, jb) (post_blocks P) [])),
       comments_entry = Some (fst (updateCommentsDoc (c0, jc) (post_comments P))) \<rparr>"
    using updatePostDoc_result [of d0 j0 P] unfolding b0_def c0_def by blast
  define b1 where "b1 = fst (updateBlocksDoc (b0, jb) (post_blocks P) [])"
  define c1 where "c1 = fst (updateCommentsDoc (c0, jc) (post_comments P))"
  have "nearlyRepresents b1 [] (post_blocks P)"
    using encode_any(1) [of "[]" "post_blocks P" "(b0, jb)"] wellFormed_root [OF assms(1)]
    unfolding b1_def by blast
  moreover from assms(3) have "\<forall>i \<in> set (blockIds (post_blocks P)). contentOf b1 i \<noteq> None"
    by (simp add: contentKept_def d1 b1_def list_all_iff)
  ultimately have "represents b1 [] (post_blocks P)"
    using nearly_kept(1) by blast
  then obtain js :: "('a, 'v) mutation list" where
    js: "updateBlocksDoc (b1, []) (post_blocks P) [] = (b1, js)" "list_all zeroLength js"
    using encode_again(1) [of "(b1, [])" "[]" "post_blocks P"] by auto
  have "holdsComments c1 (post_comments P)"
    unfolding c1_def by (rule comments_hold [OF assms(2)])
  then have cs: "updateCommentsDoc (c1, js) (post_comments P) = (c1, js)"
    by (rule comments_same)
  have "updatePostDoc (\<lparr> title_entry = post_title P, blocks_entry = Some b1,
                          comments_entry = Some c1 \<rparr>, []) P
          = (\<lparr> title_entry = post_title P, blocks_entry = Some b1, comments_entry = Some c1 \<rparr>, js)"
    by (simp add: updatePostDoc_def js cs)
  then show ?thesis
    using js(2) by (simp add: d1 b1_def [symmetric] c1_def [symmetric])
qed

text \<open>
  The amended claim C6 at an edit: the store holds the blocks \<open>a\<close> and \<open>b\<close>, and a post that
  changes the attributes of \<open>b\<close> and adds a comment with a reply is encoded twice.
\<close>

theorem reencode_writes_nothing_witness:
  "wellFormed [Block ''a'' (1::nat) [], Block ''b'' 5 []] \<and>
   wellFormedComments
     [\<lparr> comment_id = ''c1'', comment_fields = [''content'' \<mapsto> Value (7::nat)],
        replies = [\<lparr> reply_id = ''r1'', reply_fields = [''content'' \<mapsto> Value 8] \<rparr>] \<rparr>] \<and>
   contentKept
     (fst (updatePostDoc
        (fst (updatePostDoc (emptyPostDoc, [])
           \<lparr> post_title = Some ''t'',
             post_blocks = [Block ''a'' (1::nat) [], Block ''b'' 2 []],
             post_comments = [] \<rparr>),
         [] :: (nat, nat) mutation list)
        \<lparr> post_title = Some ''t'',
          post_blocks = [Block ''a'' (1::nat) [], Block ''b'' 5 []],
          post_comments =
            [\<lparr> comment_id = ''c1'', comment_fields = [''content'' \<mapsto> Value (7::nat)],
               replies = [\<lparr> reply_id = ''r1'', reply_fields = [''content'' \<mapsto> Value 8] \<rparr>] \<rparr>] \<rparr>))
     [Block ''a'' (1::nat) [], Block ''b'' 5 []] \<and>
   list_all zeroLength
     (snd (updatePostDoc
        (fst (updatePostDoc
           (fst (updatePostDoc (emptyPostDoc, [])
              \<lparr> post_title = Some ''t'',
                post_blocks = [Block ''a'' (1::nat) [], Block ''b'' 2 []],
                post_comments = [] \<rparr>),
            [] :: (nat, nat) mutation list)
           \<lparr> post_title = Some ''t'',
             post_blocks = [Block ''a'' (1::nat) [], Block ''b'' 5 []],
             post_comments =
               [\<lparr> comment_id = ''c1'', comment_fields = [''content'' \<mapsto> Value (7::nat)],
                  replies = [\<lparr> reply_id = ''r1'', reply_fields = [''content'' \<mapsto> Value 8] \<rparr>] \<rparr>] \<rparr>),
         [] :: (nat, nat) mutation list)
        \<lparr> post_title = Some ''t'',
          post_blocks = [Block ''a'' (1::nat) [], Block ''b'' 5 []],
          post_comments =
            [\<lparr> comment_id = ''c1'', comment_fields = [''content'' \<mapsto> Value (7::nat)],
               replies = [\<lparr> reply_id = ''r1'', reply_fields = [''content'' \<mapsto> Value 8] \<rparr>] \<rparr>] \<rparr>))"
proof -
  let ?P = "\<lparr> post_title = Some ''t'',
          post_blocks = [Block ''a'' (1::nat) [], Block ''b'' 5 []],
          post_comments =
            [\<lparr> comment_id = ''c1'', comment_fields = [''content'' \<mapsto> Value (7::nat)],
               replies = [\<lparr> reply_id = ''r1'', reply_fields = [''content'' \<mapsto> Value 8] \<rparr>] \<rparr>] \<rparr>"
  let ?d0 = "fst (updatePostDoc (emptyPostDoc, [])
           \<lparr> post_title = Some ''t'',
             post_blocks = [Block ''a'' (1::nat) [], Block ''b'' 2 []],
             post_comments = ([] :: nat comment list) \<rparr>)"
  have w: "wellFormed (post_blocks ?P)" by (simp add: wellFormed_def)
  have c: "wellFormedComments (post_comments ?P)"
    by (simp add: wellFormedComments_def noNaN_def commentFields_def replyFields_def)
  have k: "contentKept (fst (updatePostDoc (?d0, [] :: (nat, nat) mutation list) ?P)) (post_blocks ?P)"
    by code_simp
  from reencode_writes_nothing [OF w c k] w c k show ?thesis by simp
qed

text \<open>
  Claim C6 as the spec states it speaks of every tree. In the tree below the id \<open>b\<close>
  occurs under \<open>a\<close> and at the top with different attributes; the second encoding finds,
  at each of the two places, the attributes written for the other one, and sets the content
  of \<open>b\<close> twice.
\<close>

theorem reencode_counterexample:
  "snd (updatePostDoc
        (fst (updatePostDoc (emptyPostDoc, [])
           \<lparr> post_title = Some [],
             post_blocks = [Block ''a'' (1::nat) [Block ''b'' 2 []], Block ''b'' 3 []],
             post_comments = [] \<rparr>),
         [] :: (nat, nat) mutation list)
        \<lparr> post_title = Some [],
          post_blocks = [Block ''a'' (1::nat) [Block ''b'' 2 []], Block ''b'' 3 []],
          post_comments = [] \<rparr>)
     = [OrderDelete [] 2 0, OrderInsert [] 2 [],
        OrderDelete ''a'' 1 0, OrderInsert ''a'' 1 [],
        ContentSet ''b'' (''b'', 2),
        OrderDelete ''b'' 0 0, OrderInsert ''b'' 0 [],
        ContentSet ''b'' (''b'', 3),
        OrderDelete ''b'' 0 0, OrderInsert ''b'' 0 []]"
  by code_simp

text \<open>
  Every block keeps its content when the store recorded no children for the root or for
  the ids of the tree before the first encoding, as the empty store does.
\<close>

lemma fresh_store_keeps_content:
  fixes P :: "('a, 'v) post" and j0 :: "('a, 'v) mutation list"
  assumes "wellFormed (post_blocks P)" and "freshFor d0 (post_blocks P)"
  shows "contentKept (fst (updatePostDoc (d0, j0) P)) (post_blocks P)"
proof -
  define b0 where "b0 = (case blocks_entry d0 of None \<Rightarrow> \<lparr> order = None, byClientId = None \<rparr> | Some b \<Rightarrow> b)"
  obtain jb jc :: "('a, 'v) mutation list" where
    d1: "fst (updatePostDoc (d0, j0) P) =
     \<lparr> title_entry = post_title P,
       blocks_entry = Some (fst (updateBlocksDoc (b0, jb) (post_blocks P) [])),
       comments_entry = Some (fst (updateCommentsDoc
          (case comments_entry d0 of None \<Rightarrow> Map.empty | Some c \<Rightarrow> c, jc) (post_comments P))) \<rparr>"
    using updatePostDoc_result [of d0 j0 P] unfolding b0_def by blast
  have "represents (fst (updateBlocksDoc (b0, jb) (post_blocks P) [])) [] (post_blocks P)"
    using encode_fresh(1) [of "[]" "post_blocks P" "(b0, jb)"]
      wellFormed_root [OF assms(1)] freshFor_blocks [OF assms(2)]
    unfolding b0_def by simp
  then show ?thesis
    using represented_content(1) by (simp add: contentKept_def d1 list_all_iff) blast
qed

text \<open>
  The conditions on the comments are needed as well. When two comments of the post carry
  the same id and differ in a field, each encoding sets that field twice.
\<close>

lemma repeated_comment_id_is_rewritten:
  "snd (updatePostDoc
        (fst (updatePostDoc (emptyPostDoc, [])
           \<lparr> post_title = None, post_blocks = [],
             post_comments =
               [\<lparr> comment_id = ''c'', comment_fields = [''content'' \<mapsto> Value (7::nat)], replies = [] \<rparr>,
                \<lparr> comment_id = ''c'', comment_fields = [''content'' \<mapsto> Value 8], replies = [] \<rparr>] \<rparr>),
         [] :: (nat, nat) mutation list)
        \<lparr> post_title = None, post_blocks = [],
          post_comments =
            [\<lparr> comment_id = ''c'', comment_fields = [''content'' \<mapsto> Value (7::nat)], replies = [] \<rparr>,
             \<lparr> comment_id = ''c'', comment_fields = [''content'' \<mapsto> Value 8], replies = [] \<rparr>] \<rparr>)
   = [OrderDelete [] 0 0, OrderInsert [] 0 [],
      CommentFieldSet ''c'' ''content'' (Some (Value 7)),
      CommentFieldSet ''c'' ''content'' (Some (Value 8))]"
  by code_simp

text \<open>A field that is not-a-number \<^verbatim>\<open>!==\<close> itself, and is set again by every encoding.\<close>

lemma nan_field_is_rewritten:
  "snd (updatePostDoc
        (fst (updatePostDoc (emptyPostDoc, [])
           \<lparr> post_title = None, post_blocks = [],
             post_comments =
               [\<lparr> comment_id = ''c'', comment_fields = [''createdAt'' \<mapsto> (NaN :: nat js_value)],
                  replies = [] \<rparr>] \<rparr>),
         [] :: (nat, nat) mutation list)
        \<lparr> post_title = None, post_blocks = [],
          post_comments =
            [\<lparr> comment_id = ''c'', comment_fields = [''createdAt'' \<mapsto> (NaN :: nat js_value)],
               replies = [] \<rparr>] \<rparr>)
   = [OrderDelete [] 0 0, OrderInsert [] 0 [], CommentFieldSet ''c'' ''createdAt'' (Some NaN)]"
  by code_simp

subsection \<open>Content of removed blocks\<close>

text \<open>
  Claim C2 at a failing input. The store holds the top-level blocks \<open>a\<close>, \<open>b\<close>, \<open>c\<close>
  (it is the result of encoding them into the empty store), and one pass of
  \<^verbatim>\<open>updateBlocksDoc\<close> encodes the single block \<open>a\<close>. The diff has index 1 and removes 2
  ids. \<^verbatim>\<open>currentOrder.slice( 1, 2 )\<close> is the one id \<open>b\<close>, since the second argument of
  \<^verbatim>\<open>slice\<close> is an end position and not a count: the journal of the pass has one content
  deletion, for \<open>b\<close>, and a list deletion of two ids. After the pass the order lists are
  \<open>[a]\<close> for the root and empty for \<open>a\<close>, \<open>b\<close> and \<open>c\<close>, there is no other order list,
  and \<open>c\<close>, which no order list holds, still has its content.
\<close>

theorem removed_tail_keeps_content:
  "snd (updateBlocksDoc
         (fst (updateBlocksDoc (emptyBlocksDoc, [])
                 [Block ''a'' (1::nat) [], Block ''b'' 2 [], Block ''c'' 3 []] []),
          [] :: (nat, nat) mutation list)
         [Block ''a'' 1 []] [])
     = [ContentDelete ''b'' True, OrderDelete [] 1 2, OrderInsert [] 1 [],
        OrderDelete ''a'' 0 0, OrderInsert ''a'' 0 []] \<and>
   order (fst (updateBlocksDoc
         (fst (updateBlocksDoc (emptyBlocksDoc, [])
                 [Block ''a'' (1::nat) [], Block ''b'' 2 [], Block ''c'' 3 []] []),
          [] :: (nat, nat) mutation list)
         [Block ''a'' 1 []] []))
     = Some [[] \<mapsto> [''a''], ''a'' \<mapsto> [], ''b'' \<mapsto> [], ''c'' \<mapsto> []] \<and>
   map (contentOf (fst (updateBlocksDoc
         (fst (updateBlocksDoc (emptyBlocksDoc, [])
                 [Block ''a'' (1::nat) [], Block ''b'' 2 [], Block ''c'' 3 []] []),
          [] :: (nat, nat) mutation list)
         [Block ''a'' 1 []] []))) [''a'', ''b'', ''c'']
     = [Some (''a'', 1), None, Some (''c'', 3)]"
proof (intro conjI)
  show "snd (updateBlocksDoc
         (fst (updateBlocksDoc (emptyBlocksDoc, [])
                 [Block ''a'' (1::nat) [], Block ''b'' 2 [], Block ''c'' 3 []] []),
          [] :: (nat, nat) mutation list)
         [Block ''a'' 1 []] [])
     = [ContentDelete ''b'' True, OrderDelete [] 1 2, OrderInsert [] 1 [],
        OrderDelete ''a'' 0 0, OrderInsert ''a'' 0 []]"
    by code_simp
  show "order (fst (updateBlocksDoc
         (fst (updateBlocksDoc (emptyBlocksDoc, [])
                 [Block ''a'' (1::nat) [], Block ''b'' 2 [], Block ''c'' 3 []] []),
          [] :: (nat, nat) mutation list)
         [Block ''a'' 1 []] []))
     = Some [[] \<mapsto> [''a''], ''a'' \<mapsto> [], ''b'' \<mapsto> [], ''c'' \<mapsto> []]"
    by (simp add: emptyBlocksDoc_def updateBlocksDoc.simps reorder_def writeBlock_def
          simpleDiffArray_def slice_def array_delete_def array_insert_def fun_upd_twist)
  show "map (contentOf (fst (updateBlocksDoc
         (fst (updateBlocksDoc (emptyBlocksDoc, [])
                 [Block ''a'' (1::nat) [], Block ''b'' 2 [], Block ''c'' 3 []] []),
          [] :: (nat, nat) mutation list)
         [Block ''a'' 1 []] []))) [''a'', ''b'', ''c'']
     = [Some (''a'', 1), None, Some (''c'', 3)]"
    by code_simp
qed

text \<open>
  The content map is shared by all parents, and the deletion looks only at the ids inserted
  under the same parent. When \<open>x\<close> moves from \<open>p\<close> to \<open>q\<close> and \<open>q\<close> is visited before
  \<open>p\<close>, the visit of \<open>p\<close> deletes the content of \<open>x\<close> after the visit of \<open>q\<close> has
  found it up to date: the order list of \<open>q\<close> holds \<open>x\<close>, and \<open>x\<close> has no content.
\<close>

lemma moved_block_loses_content:
  "map (orderOf (fst (updateBlocksDoc
         (fst (updateBlocksDoc (emptyBlocksDoc, [])
                 [Block ''q'' (1::nat) [], Block ''p'' 2 [Block ''x'' 3 []]] []),
          [] :: (nat, nat) mutation list)
         [Block ''q'' 1 [Block ''x'' 3 []], Block ''p'' 2 []] []))) [[], ''q'', ''p'', ''x'']
     = [Some [''q'', ''p''], Some [''x''], Some [], Some []] \<and>
   map (contentOf (fst (updateBlocksDoc
         (fst (updateBlocksDoc (emptyBlocksDoc, [])
                 [Block ''q'' (1::nat) [], Block ''p'' 2 [Block ''x'' 3 []]] []),
          [] :: (nat, nat) mutation list)
         [Block ''q'' 1 [Block ''x'' 3 []], Block ''p'' 2 []] []))) [''q'', ''p'', ''x'']
     = [Some (''q'', 1), Some (''p'', 2), None]"
  by code_simp

text \<open>
  Encoding the same tree once more after that move finds no content for \<open>x\<close> and writes
  it: the second of two equal encodings is not free of writes when the store held other
  children before.
\<close>

lemma reencode_after_move_writes:
  "snd (updateBlocksDoc
     (fst (updateBlocksDoc
         (fst (updateBlocksDoc (emptyBlocksDoc, [])
                 [Block ''q'' (1::nat) [], Block ''p'' 2 [Block ''x'' 3 []]] []),
          [] :: (nat, nat) mutation list)
         [Block ''q'' 1 [Block ''x'' 3 []], Block ''p'' 2 []] []), [] :: (nat, nat) mutation list)
     [Block ''q'' 1 [Block ''x'' 3 []], Block ''p'' 2 []] [])
   = [OrderDelete [] 2 0, OrderInsert [] 2 [],
      OrderDelete ''q'' 1 0, OrderInsert ''q'' 1 [],
      ContentSet ''x'' (''x'', 3),
      OrderDelete ''x'' 0 0, OrderInsert ''x'' 0 [],
      OrderDelete ''p'' 0 0, OrderInsert ''p'' 0 []]"
  by code_simp

section \<open>Properties of the document\<close>

subsection \<open>The undo manager exists only once the state has been on\<close>

lemma sendMessage_keeps [simp]:
  "undoManager (sendMessage m s) = undoManager s" "state (sendMessage m s) = state s"
  "doc (sendMessage m s) = doc s"
  by (simp_all add: sendMessage_def)

lemma sync_keeps [simp]:
  "undoManager (sync cfg dest reply s) = undoManager s" "state (sync cfg dest reply s) = state s"
  by (simp_all add: sync_def)

lemma setState_reads [simp]:
  "state (setState ns s) = ns"
  "ns \<noteq> On \<Longrightarrow> undoManager (setState ns s) = undoManager s"
  by (simp_all add: setState_def setupUndoManagerOnReady_def Let_def)

lemma onUpdate_keeps:
  "state (snd (onUpdate cfg upd orig s)) = state s \<and>
   undoManager (snd (onUpdate cfg upd orig s)) = undoManager s"
  by (simp add: onUpdate_def Let_def split: sum.splits)

lemma afterCommit_keeps:
  "state (snd (afterCommit cfg e orig upd c u r s)) = state s \<and>
   (undoManager s = None \<longrightarrow> undoManager (snd (afterCommit cfg e orig upd c u r s)) = None)"
  by (simp add: afterCommit_def onUpdate_keeps)

lemma transact_keeps:
  "state (snd (transact cfg e orig data s)) = state s \<and>
   (undoManager s = None \<longrightarrow> undoManager (snd (transact cfg e orig data s)) = None)"
  by (simp add: transact_def afterCommit_keeps split: prod.splits)

lemma applyDataChanges_keeps:
  "state (snd (applyDataChanges cfg e data s)) = state s \<and>
   (undoManager s = None \<longrightarrow> undoManager (snd (applyDataChanges cfg e data s)) = None)"
  by (simp add: applyDataChanges_def transact_keeps)

lemma applyRemote_keeps:
  "state (snd (applyRemote cfg e m s)) = state s \<and>
   (undoManager s = None \<longrightarrow> undoManager (snd (applyRemote cfg e m s)) = None)"
  by (auto simp: applyRemote_def afterCommit_keeps split: option.splits sum.splits prod.splits)

lemma receiveMessage_keeps:
  assumes "undoManager s = None" and "state (snd (receiveMessage cfg e m s)) \<noteq> On"
  shows "undoManager (snd (receiveMessage cfg e m s)) = None"
proof -
  have r: "state (snd (applyRemote cfg e m s)) = state s"
    "undoManager (snd (applyRemote cfg e m s)) = None"
    using applyRemote_keeps [of cfg e m s] assms(1) by simp_all
  show ?thesis
    using assms r
    by (auto simp: receiveMessage_def Let_def split: if_splits option.splits sum.splits prod.splits)
qed

lemma perform_keeps:
  assumes "undoManager s = None" and "state (snd (perform cfg e c s)) \<noteq> On"
  shows "undoManager (snd (perform cfg e c s)) = None"
proof (cases c)
  case (ApplyDataChanges data)
  then show ?thesis using assms applyDataChanges_keeps [of cfg e data s] by simp
next
  case Connect
  then show ?thesis using assms by (simp add: connect_def)
next
  case Disconnect
  then show ?thesis using assms by (simp add: disconnect_def)
next
  case (StartSharing data)
  then show ?thesis
    using assms applyDataChanges_keeps [of cfg e data "setState On s"]
    by (simp add: startSharing_def split: if_splits)
next
  case (ReceiveMessage m)
  then show ?thesis using assms receiveMessage_keeps [of s cfg e m] by simp
next
  case (OnRemoteDataChange l)
  then show ?thesis using assms by (simp add: onRemoteDataChange_def)
next
  case (RemoveRemoteDataChange l)
  then show ?thesis using assms by (simp add: removeRemoteDataChange_def)
next
  case (OnStateChange l)
  then show ?thesis using assms by (simp add: onStateChange_def)
next
  case (RemoveStateChange l)
  then show ?thesis using assms by (simp add: removeStateChange_def)
next
  case Undo
  then show ?thesis using assms by (simp add: undo_def)
next
  case Redo
  then show ?thesis using assms by (simp add: redo_def)
next
  case (ApplyChangesToYjs bs)
  then show ?thesis
    using assms
      applyDataChanges_keeps [of cfg e "\<lparr> post_title = None, post_blocks = bs, post_comments = [] \<rparr>" s]
    by (simp add: applyChangesToYjs_def split: if_splits)
next
  case (OnReceiveMessage tm)
  then show ?thesis
    using assms receiveMessage_keeps [of s cfg e]
    by (cases tm) simp_all
qed

lemma neverOn_no_manager:
  "undoManager s = None \<Longrightarrow> neverOn cfg calls s \<Longrightarrow> undoManager (run cfg calls s) = None"
proof (induction calls arbitrary: s)
  case Nil
  then show ?case by simp
next
  case (Cons ec calls)
  obtain e c where ec: "ec = (e, c)" by (cases ec)
  from Cons.prems ec have n: "neverOn cfg calls (snd (perform cfg e c s))" by simp
  then have "state (snd (perform cfg e c s)) \<noteq> On" by (cases calls) auto
  with Cons.prems(1) have "undoManager (snd (perform cfg e c s)) = None"
    by (rule perform_keeps)
  from Cons.IH [OF this n] show ?case by (simp add: ec)
qed

text \<open>
  Claim C9. Take any list of calls made on a fresh document such that the state is not
  \<open>on\<close> after any of them. Then \<^verbatim>\<open>hasUndo()\<close> and \<^verbatim>\<open>hasRedo()\<close> answer false, and
  \<^verbatim>\<open>undo()\<close> and \<^verbatim>\<open>redo()\<close> return without throwing and leave the whole session as it
  is: the document, the connection state, and the calls made on the callbacks.
\<close>

theorem no_undo_before_on:
  assumes "neverOn cfg calls (createDocument cfg)"
  shows "\<not> hasUndo (run cfg calls (createDocument cfg)) \<and>
         \<not> hasRedo (run cfg calls (createDocument cfg)) \<and>
         undo cfg e (run cfg calls (createDocument cfg)) = (None, run cfg calls (createDocument cfg)) \<and>
         redo cfg e (run cfg calls (createDocument cfg)) = (None, run cfg calls (createDocument cfg))"
proof -
  have "undoManager (createDocument cfg) = None" by (simp add: createDocument_def)
  from neverOn_no_manager [OF this assms]
  show ?thesis by (simp add: hasUndo_def hasRedo_def undo_def redo_def)
qed

text \<open>
  Claim C9 at a history in which the client connects, the editor submits blocks, a sync
  request arrives, undo is called and the client disconnects: the state is never \<open>on\<close>.
\<close>

theorem no_undo_before_on_witness:
  "neverOn exampleConfig
     [(exampleEnv, Connect),
      (exampleEnv, ApplyChangesToYjs [Block ''a'' (1::nat) []]),
      (exampleEnv, ReceiveMessage (syncRequest ''peer'' None False [0])),
      (exampleEnv, Undo), (exampleEnv, Disconnect)]
     (createDocument exampleConfig :: (nat, nat, nat, nat, nat) session) \<and>
   \<not> hasUndo (run exampleConfig
     [(exampleEnv, Connect),
      (exampleEnv, ApplyChangesToYjs [Block ''a'' (1::nat) []]),
      (exampleEnv, ReceiveMessage (syncRequest ''peer'' None False [0])),
      (exampleEnv, Undo), (exampleEnv, Disconnect)]
     (createDocument exampleConfig :: (nat, nat, nat, nat, nat) session))"
proof -
  have "neverOn exampleConfig
     [(exampleEnv, Connect),
      (exampleEnv, ApplyChangesToYjs [Block ''a'' (1::nat) []]),
      (exampleEnv, ReceiveMessage (syncRequest ''peer'' None False [0])),
      (exampleEnv, Undo), (exampleEnv, Disconnect)]
     (createDocument exampleConfig :: (nat, nat, nat, nat, nat) session)"
    by code_simp
  with no_undo_before_on [OF this, of exampleEnv] show ?thesis by blast
qed

subsection \<open>Local changes\<close>

lemma onUpdate_own:
  "onUpdate cfg upd (Tagged (Some (identity cfg))) s =
     (None, if state s = On then s\<lparr> effects := effects s @ [Sent (updateBroadcast upd)] \<rparr> else s)"
  by (simp add: onUpdate_def sendMessage_def updateBroadcast_def)

text \<open>
  Claim C3, as amended. While the state is not \<open>on\<close>, submitting blocks through the
  editor's callback \<^verbatim>\<open>applyChangesToYjs\<close> is a silent no-op: nothing is thrown and the
  session (document, connection state, messages sent) is as before; the document's own
  \<^verbatim>\<open>applyDataChanges\<close> throws \<^verbatim>\<open>'wrong state'\<close> to its caller, also leaving the session as
  before. While the state is \<open>on\<close>, the callback hands the blocks to \<^verbatim>\<open>applyDataChanges\<close>,
  which runs the tree codec in one transaction whose origin is the client's identity: it
  does not throw, the state stays \<open>on\<close>, the map \<^verbatim>\<open>post\<close> is what \<^verbatim>\<open>updatePostDoc\<close> makes of
  it, and if the codec changed anything one update message with the transaction's update
  is sent, and nothing else is emitted.
\<close>

theorem local_change_needs_on:
  "(state s \<noteq> On \<longrightarrow>
      applyChangesToYjs cfg e bs s = (None, s) \<and>
      applyDataChanges cfg e data s = (Some WrongState, s)) \<and>
   (state s = On \<longrightarrow>
      applyChangesToYjs cfg e bs s
        = applyDataChanges cfg e \<lparr> post_title = None, post_blocks = bs, post_comments = [] \<rparr> s \<and>
      applyDataChanges cfg e data s = transact cfg e (Tagged (Some (identity cfg))) data s \<and>
      fst (applyDataChanges cfg e data s) = None \<and>
      state (snd (applyDataChanges cfg e data s)) = On \<and>
      post (doc (snd (applyDataChanges cfg e data s))) = fst (updatePostDoc (post (doc s), []) data) \<and>
      effects (snd (applyDataChanges cfg e data s))
        = effects s @
          (if list_ex changes (snd (updatePostDoc (post (doc s), []) data))
           then [Sent (updateBroadcast
                   (fst (snd (commit (lib cfg) (internals (doc s))
                                (snd (updatePostDoc (post (doc s), []) data))))))]
           else []))"
  by (simp add: applyChangesToYjs_def getState_def applyDataChanges_def transact_def
        afterCommit_def onUpdate_own case_prod_beta Let_def)

text \<open>
  The amended claim C3 at a fresh document, whose state is \<open>off\<close>, and at the same document
  once its state is \<open>on\<close>.
\<close>

theorem local_change_needs_on_witness:
  "state (createDocument exampleConfig :: (nat, nat, nat, nat, nat) session) \<noteq> On \<and>
   applyChangesToYjs exampleConfig exampleEnv [Block ''a'' (1::nat) []]
     (createDocument exampleConfig :: (nat, nat, nat, nat, nat) session)
     = (None, createDocument exampleConfig) \<and>
   state (setState On (createDocument exampleConfig :: (nat, nat, nat, nat, nat) session)) = On \<and>
   fst (applyDataChanges exampleConfig exampleEnv
          \<lparr> post_title = None, post_blocks = [Block ''a'' (1::nat) []], post_comments = [] \<rparr>
          (setState On (createDocument exampleConfig :: (nat, nat, nat, nat, nat) session))) = None"
proof -
  have off: "state (createDocument exampleConfig :: (nat, nat, nat, nat, nat) session) \<noteq> On"
    by (simp add: createDocument_def)
  have on: "state (setState On (createDocument exampleConfig :: (nat, nat, nat, nat, nat) session)) = On"
    by simp
  from off have 1: "applyChangesToYjs exampleConfig exampleEnv [Block ''a'' (1::nat) []]
     (createDocument exampleConfig :: (nat, nat, nat, nat, nat) session)
     = (None, createDocument exampleConfig)"
    using local_change_needs_on
      [of "createDocument exampleConfig :: (nat, nat, nat, nat, nat) session"
        exampleConfig exampleEnv "[Block ''a'' (1::nat) []]"]
    by blast
  from on have 2: "fst (applyDataChanges exampleConfig exampleEnv
          \<lparr> post_title = None, post_blocks = [Block ''a'' (1::nat) []], post_comments = [] \<rparr>
          (setState On (createDocument exampleConfig :: (nat, nat, nat, nat, nat) session))) = None"
    using local_change_needs_on
      [of "setState On (createDocument exampleConfig :: (nat, nat, nat, nat, nat) session)"
        exampleConfig exampleEnv _
        "\<lparr> post_title = None, post_blocks = [Block ''a'' (1::nat) []], post_comments = [] \<rparr>"]
    by blast
  from off on 1 2 show ?thesis by blast
qed

text \<open>
  Claim C3 as the spec states it has no error raised to the caller. On a fresh document,
  whose state is \<open>off\<close>, \<^verbatim>\<open>applyDataChanges\<close> throws.
\<close>

theorem local_change_counterexample:
  "applyDataChanges exampleConfig exampleEnv
     \<lparr> post_title = None, post_blocks = [Block ''a'' (1::nat) []], post_comments = [] \<rparr>
     (createDocument exampleConfig :: (nat, nat, nat, nat, nat) session)
   = (Some WrongState, createDocument exampleConfig)"
  by (simp add: applyDataChanges_def createDocument_def)

subsection \<open>Sync requests\<close>




subsection \<open>Messages with another protocol tag\<close>

text \<open>
  Claim C5, as amended. A message whose protocol tag is not \<^verbatim>\<open>yjs1\<close> is rejected by
  throwing \<^verbatim>\<open>'wrong protocol'\<close>: \<^verbatim>\<open>receiveMessage\<close> throws it, and so does
  \<^verbatim>\<open>onReceiveMessage\<close>, through which the transport delivers the message. The session
  (document, connection state, messages sent) is as before, so whatever is called next
  behaves as if the message had not arrived.
\<close>

theorem wrong_protocol_rejected:
  assumes "protocol m \<noteq> ''yjs1''"
  shows "receiveMessage cfg e m s = (Some WrongProtocol, s) \<and>
         onReceiveMessage cfg e (DocMessage sender m) s = (Some WrongProtocol, s) \<and>
         run cfg ((e, ReceiveMessage m) # calls) s = run cfg calls s"
  using assms by (simp add: receiveMessage_def)

text \<open>The amended claim C5 at an update message tagged \<^verbatim>\<open>yjs2\<close>, received by a fresh document.\<close>

theorem wrong_protocol_rejected_witness:
  "protocol (updateBroadcast [0]\<lparr> protocol := ''yjs2'' \<rparr>) \<noteq> ''yjs1'' \<and>
   receiveMessage exampleConfig exampleEnv (updateBroadcast [0]\<lparr> protocol := ''yjs2'' \<rparr>)
     (createDocument exampleConfig :: (nat, nat, nat, nat, nat) session)
     = (Some WrongProtocol, createDocument exampleConfig)"
proof -
  have p: "protocol (updateBroadcast [0]\<lparr> protocol := ''yjs2'' \<rparr>) \<noteq> ''yjs1''" by simp
  from wrong_protocol_rejected [OF p, of exampleConfig exampleEnv
          "createDocument exampleConfig :: (nat, nat, nat, nat, nat) session"] p
  show ?thesis by blast
qed

text \<open>
  Claim C5 as the spec states it has no error surface to the caller of receive. On a fresh
  document, receiving a message tagged \<^verbatim>\<open>yjs2\<close> throws.
\<close>

theorem wrong_protocol_counterexample:
  "fst (receiveMessage exampleConfig exampleEnv
          \<lparr> protocol = ''yjs2'', messageType = ''syncUpdate'', origin = Some ''peer'',
            destination = None, isReply = False, stateVector = None, update = Some ''0'' \<rparr>
          (createDocument exampleConfig :: (nat, nat, nat, nat, nat) session))
   = Some WrongProtocol"
  by (simp add: receiveMessage_def)

subsection \<open>Selection after undo and redo\<close>

lemma restoreCaret_alt:
  "restoreCaret c s =
     (case c of None \<Rightarrow> s
      | Some sel \<Rightarrow> if sel_start sel \<noteq> None then setSelection sel s else s)"
  by (cases c) (simp_all add: setSelection_def)

text \<open>
  Claim C8. When an item has been popped and the handler of \<^verbatim>\<open>stack-item-popped\<close> runs: for
  an undo, nothing is restored if the undo stack is now empty, and otherwise the selection
  considered is the caret location of the item now on top of the undo stack; for a redo it
  is the caret location of the popped item. In both directions \<^verbatim>\<open>setSelection\<close> is called
  with that selection unless it is missing or has no start.
\<close>

theorem selection_restored_on_pop:
  assumes "undoManager s = Some um"
  shows "(popType event = UndoType \<and> undoStack um = [] \<longrightarrow> stackItemPopped event s = s) \<and>
         (popType event = UndoType \<and> undoStack um \<noteq> [] \<longrightarrow>
            stackItemPopped event s = restoreCaret (caretLocation (last (undoStack um))) s) \<and>
         (popType event = RedoType \<longrightarrow>
            stackItemPopped event s = restoreCaret (caretLocation (stackItem event)) s)"
  using assms by (simp add: stackItemPopped_def atLast_def restoreCaret_alt Let_def)

text \<open>
  Claim C8 at an undo that leaves the undo stack empty, at an undo that leaves two items on
  it, and at a redo.
\<close>

theorem selection_restored_on_pop_witness:
  "stackItemPopped
     \<lparr> popType = UndoType,
       stackItem = \<lparr> change = 9, caretLocation = Some \<lparr> sel_start = Some 5, sel_end = Some 5 \<rparr> \<rparr> \<rparr>
     ((createDocument exampleConfig :: (nat, nat, nat, nat, nat) session)
        \<lparr> undoManager := Some \<lparr> undoStack = [], redoStack = [], lastChange = 0 \<rparr> \<rparr>)
   = (createDocument exampleConfig)
        \<lparr> undoManager := Some \<lparr> undoStack = [], redoStack = [], lastChange = 0 \<rparr> \<rparr> \<and>
   effects (stackItemPopped
     \<lparr> popType = UndoType,
       stackItem = \<lparr> change = 9, caretLocation = Some \<lparr> sel_start = Some 5, sel_end = Some 5 \<rparr> \<rparr> \<rparr>
     ((createDocument exampleConfig :: (nat, nat, nat, nat, nat) session)
        \<lparr> undoManager := Some \<lparr> undoStack =
               [\<lparr> change = 1, caretLocation = Some \<lparr> sel_start = Some 3, sel_end = Some 4 \<rparr> \<rparr>,
                \<lparr> change = 2, caretLocation = Some \<lparr> sel_start = Some 7, sel_end = Some 7 \<rparr> \<rparr>],
               redoStack = [], lastChange = 0 \<rparr> \<rparr>))
   = [SelectionSet \<lparr> sel_start = Some 7, sel_end = Some 7 \<rparr>] \<and>
   effects (stackItemPopped
     \<lparr> popType = RedoType,
       stackItem = \<lparr> change = 9, caretLocation = Some \<lparr> sel_start = Some 5, sel_end = Some 5 \<rparr> \<rparr> \<rparr>
     ((createDocument exampleConfig :: (nat, nat, nat, nat, nat) session)
        \<lparr> undoManager := Some \<lparr> undoStack = [], redoStack = [], lastChange = 0 \<rparr> \<rparr>))
   = [SelectionSet \<lparr> sel_start = Some 5, sel_end = Some 5 \<rparr>]"
  using
    selection_restored_on_pop [of
      "(createDocument exampleConfig :: (nat, nat, nat, nat, nat) session)
        \<lparr> undoManager := Some \<lparr> undoStack = [], redoStack = [], lastChange = 0 \<rparr> \<rparr>"
      "\<lparr> undoStack = [], redoStack = [], lastChange = 0 \<rparr>"
      "\<lparr> popType = UndoType,
         stackItem = \<lparr> change = 9, caretLocation = Some \<lparr> sel_start = Some 5, sel_end = Some 5 \<rparr> \<rparr> \<rparr>"]
    selection_restored_on_pop [of
      "(createDocument exampleConfig :: (nat, nat, nat, nat, nat) session)
        \<lparr> undoManager := Some \<lparr> undoStack =
               [\<lparr> change = 1, caretLocation = Some \<lparr> sel_start = Some 3, sel_end = Some 4 \<rparr> \<rparr>,
                \<lparr> change = 2, caretLocation = Some \<lparr> sel_start = Some 7, sel_end = Some 7 \<rparr> \<rparr>],
               redoStack = [], lastChange = 0 \<rparr> \<rparr>"
      "\<lparr> undoStack =
               [\<lparr> change = 1, caretLocation = Some \<lparr> sel_start = Some 3, sel_end = Some 4 \<rparr> \<rparr>,
                \<lparr> change = 2, caretLocation = Some \<lparr> sel_start = Some 7, sel_end = Some 7 \<rparr> \<rparr>],
               redoStack = [], lastChange = 0 \<rparr>"
      "\<lparr> popType = UndoType,
         stackItem = \<lparr> change = 9, caretLocation = Some \<lparr> sel_start = Some 5, sel_end = Some 5 \<rparr> \<rparr> \<rparr>"]
    selection_restored_on_pop [of
      "(createDocument exampleConfig :: (nat, nat, nat, nat, nat) session)
        \<lparr> undoManager := Some \<lparr> undoStack = [], redoStack = [], lastChange = 0 \<rparr> \<rparr>"
      "\<lparr> undoStack = [], redoStack = [], lastChange = 0 \<rparr>"
      "\<lparr> popType = RedoType,
         stackItem = \<lparr> change = 9, caretLocation = Some \<lparr> sel_start = Some 5, sel_end = Some 5 \<rparr> \<rparr> \<rparr>"]
  by (simp add: createDocument_def)

text \<open>
  The handler within \<^verbatim>\<open>undo()\<close>: when reverting the top item changes the document and the
  document decodes, the item is off the stack when the handler runs, and the caret restored
  is that of the item below it.
\<close>

lemma undo_restores_caret_below:
  assumes "undoManager s = Some um" and "undoStack um = below @ [popped]"
    and "revert (lib cfg) (doc s) (change popped) = Some (d, upd, c)"
    and "postDocToObject (stackLimit cfg) (post d) = Inr newData"
  shows "undo cfg e s =
     (None,
      restoreCaret (case atLast below of None \<Rightarrow> None | Some item \<Rightarrow> caretLocation item)
        (s\<lparr> doc := d,
            undoManager := Some (um\<lparr> undoStack := below, lastChange := 0,
                 redoStack := redoStack um @ [\<lparr> change = c, caretLocation = Some (getSelection e) \<rparr>] \<rparr>),
            effects := effects s @ (if state s = On then [Sent (updateBroadcast upd)] else [])
                          @ map (\<lambda>l. RemoteData l newData) (listeners s) \<rparr>))"
  using assms
  by (cases "atLast below")
     (auto simp: undo_def managerUndo_def afterCommit_def afterTransaction_def tracked_def
        onUpdate_def sendMessage_def updateBroadcast_def stackItemAdded_def stackItemPopped_def
        restoreCaret_alt atLast_def Let_def split: option.splits)

text \<open>The same within \<^verbatim>\<open>redo()\<close>: the caret restored is that of the item taken off the redo stack.\<close>

lemma redo_restores_own_caret:
  assumes "undoManager s = Some um" and "redoStack um = below @ [popped]"
    and "revert (lib cfg) (doc s) (change popped) = Some (d, upd, c)"
    and "postDocToObject (stackLimit cfg) (post d) = Inr newData"
  shows "redo cfg e s =
     (None,
      restoreCaret (caretLocation popped)
        (s\<lparr> doc := d,
            undoManager := Some (um\<lparr> redoStack := below,
                 undoStack := undoStack um @ [\<lparr> change = c, caretLocation = Some (getSelection e) \<rparr>] \<rparr>),
            effects := effects s @ (if state s = On then [Sent (updateBroadcast upd)] else [])
                          @ map (\<lambda>l. RemoteData l newData) (listeners s) \<rparr>))"
  using assms
  by (auto simp: redo_def managerRedo_def afterCommit_def afterTransaction_def tracked_def
        onUpdate_def sendMessage_def updateBroadcast_def stackItemAdded_def stackItemPopped_def
        restoreCaret_alt atLast_def Let_def split: option.splits)

end
